theory Spec2Isabelle
  imports Main "HOL-Library.Sublist"
begin

section \<open>Types, values and memory\<close>

text \<open>
  The header \<^verbatim>\<open>impl/interface.hpp\<close> is a family of templates: every definition below is
  parameterised by the C++ types it is instantiated with. A C++ type is a class (named), a
  pointer to a type, or \<^verbatim>\<open>void*\<close>.
\<close>

type_synonym addr = nat
type_synonym cname = string
type_synonym mname = string

datatype ctype = Class cname | Ptr ctype | VoidPtr

text \<open>\<^verbatim>\<open>std::is_pointer_v<T>\<close>\<close>

fun is_pointer :: "ctype \<Rightarrow> bool" where
  "is_pointer (Class C) = False"
| "is_pointer (Ptr T) = True"
| "is_pointer VoidPtr = True"

text \<open>
  A value is an object of class type (its state is an element of \<open>'o\<close>) or a pointer
  (\<open>None\<close> is \<^verbatim>\<open>nullptr\<close>). A memory cell is a raw byte buffer or holds a live value.
\<close>

datatype 'o val = Obj 'o | PtrV "addr option"

datatype 'o cell = Raw | Holds "'o val"

type_synonym 'o heap = "addr \<Rightarrow> 'o cell option"

text \<open>
  A class declares what the header asks of it: the constructor taking \<^verbatim>\<open>const T&\<close> (absent
  when \<^verbatim>\<open>std::is_constructible_v<T, const T&>\<close> is false; \<open>None\<close> as its result is a thrown
  exception), the constructor taking \<^verbatim>\<open>T&&\<close> (its result is the new object and the state the
  source is left in; when none is declared an rvalue binds to the copy constructor), its
  size and alignment, and its methods by name (a method returns its result and the
  object's new state).
\<close>

record ('o, 'a, 'r) class_decl =
  copy_ctor :: "('o \<Rightarrow> 'o option) option"
  move_ctor :: "('o \<Rightarrow> ('o \<times> 'o) option) option"
  sizeof_class :: nat
  alignof_class :: nat
  methods :: "mname \<Rightarrow> ('o \<Rightarrow> 'a \<Rightarrow> 'r \<times> 'o) option"

record ('o, 'a, 'r) program =
  class_of :: "cname \<Rightarrow> ('o, 'a, 'r) class_decl"
  sizeof_ptr :: nat
  default_new_alignment :: nat

definition sizeof :: "('o, 'a, 'r) program \<Rightarrow> ctype \<Rightarrow> nat" where
  "sizeof E T = (case T of Class C \<Rightarrow> sizeof_class (class_of E C) | _ \<Rightarrow> sizeof_ptr E)"

definition alignof :: "('o, 'a, 'r) program \<Rightarrow> ctype \<Rightarrow> nat" where
  "alignof E T = (case T of Class C \<Rightarrow> alignof_class (class_of E C) | _ \<Rightarrow> sizeof_ptr E)"

text \<open>\<^verbatim>\<open>std::is_constructible_v<T, const T&>\<close>\<close>

definition is_copy_constructible :: "('o, 'a, 'r) program \<Rightarrow> ctype \<Rightarrow> bool" where
  "is_copy_constructible E T =
     (case T of Class C \<Rightarrow> copy_ctor (class_of E C) \<noteq> None | _ \<Rightarrow> True)"

text \<open>The constructor that \<^verbatim>\<open>T{std::move(x)}\<close> selects.\<close>

definition move_init :: "('o, 'a, 'r) class_decl \<Rightarrow> ('o \<Rightarrow> ('o \<times> 'o) option) option" where
  "move_init cd =
     (case move_ctor cd of
        Some g \<Rightarrow> Some g
      | None \<Rightarrow> map_option (\<lambda>f v. map_option (\<lambda>v'. (v', v)) (f v)) (copy_ctor cd))"

text \<open>\<^verbatim>\<open>std::is_constructible_v<T, T&&>\<close>\<close>

definition is_move_constructible :: "('o, 'a, 'r) program \<Rightarrow> ctype \<Rightarrow> bool" where
  "is_move_constructible E T =
     (case T of Class C \<Rightarrow> move_init (class_of E C) \<noteq> None | _ \<Rightarrow> True)"

section \<open>Program state and failures\<close>

text \<open>
  A function pointer stored in a dispatch table is
  \<^verbatim>\<open>erasure_fn<SIGNATURE, METHOD_NAME_k_factory<U>>::value\<close>: it is identified by the method
  name and the concrete type it was instantiated with. The address of
  \<^verbatim>\<open>thunk_storage<T>::t\<close> is one object per type \<open>T\<close>.
\<close>

datatype fnptr = erasure_fn_value mname ctype

datatype thunk_ptr = thunk_addr ctype

record handle =
  m_ptr :: "addr option"
  m_t :: "thunk_ptr option"
  m_vtable :: "fnptr option list"

text \<open>
  The state: the memory, the allocator behind \<^verbatim>\<open>new std::byte[n]\<close> (it hands out the
  addresses from \<open>brk\<close> upwards and refuses a request above \<open>capacity\<close> with
  \<^verbatim>\<open>std::bad_alloc\<close>), and the interface objects that exist as variables, by name.
\<close>

type_synonym href = nat

record 'o state =
  heap :: "'o heap"
  brk :: addr
  capacity :: nat
  handles :: "href \<Rightarrow> handle"

text \<open>
  An operation returns normally, or throws (the state at the throw is kept), or has
  undefined behaviour, or is rejected when the templates are instantiated.
\<close>

datatype exn = bad_alloc | ctor_exception

datatype 's error = Throws exn 's | Undefined | IllFormed

definition new_bytes :: "nat \<Rightarrow> 'o state \<Rightarrow> 'o state error + addr \<times> 'o state" where
  "new_bytes n s =
     (if n \<le> capacity s
      then Inr (brk s, s\<lparr>heap := (heap s)(brk s \<mapsto> Raw), brk := Suc (brk s)\<rparr>)
      else Inl (Throws bad_alloc s))"

definition delete_bytes :: "addr option \<Rightarrow> 'o state \<Rightarrow> 'o state" where
  "delete_bytes p s = (case p of None \<Rightarrow> s | Some a \<Rightarrow> s\<lparr>heap := (heap s)(a := None)\<rparr>)"

text \<open>
  The destructor of \<^verbatim>\<open>std::unique_ptr<std::byte[]>\<close> while an exception propagates: the
  buffer is released.
\<close>

definition unwind :: "addr \<Rightarrow> 'o state error \<Rightarrow> 'o state error" where
  "unwind buf e = (case e of Throws x s \<Rightarrow> Throws x (delete_bytes (Some buf) s) | _ \<Rightarrow> e)"

definition read_obj :: "'o heap \<Rightarrow> addr option \<Rightarrow> 'o option" where
  "read_obj hp p =
     (case p of None \<Rightarrow> None
      | Some a \<Rightarrow> (case hp a of Some (Holds (Obj v)) \<Rightarrow> Some v | _ \<Rightarrow> None))"

definition read_ptr :: "'o heap \<Rightarrow> addr option \<Rightarrow> addr option option" where
  "read_ptr hp p =
     (case p of None \<Rightarrow> None
      | Some a \<Rightarrow> (case hp a of Some (Holds (PtrV q)) \<Rightarrow> Some q | _ \<Rightarrow> None))"

section \<open>namespace \<^verbatim>\<open>interface_detail\<close>\<close>

text \<open>
  \<^verbatim>\<open>as_object<T>(p)\<close>: the address of the object the call is made on; a stored pointer is
  dereferenced once more. \<open>None\<close> is a dereference of a null or dead pointer.
\<close>

definition as_object :: "ctype \<Rightarrow> addr option \<Rightarrow> 'o heap \<Rightarrow> addr option" where
  "as_object T p hp =
     (if is_pointer T
      then (case read_ptr hp p of Some (Some q) \<Rightarrow> Some q | _ \<Rightarrow> None)
      else p)"

text \<open>The class of the expression \<^verbatim>\<open>as_object<T>(p)\<close>, when it has one.\<close>

fun object_class :: "ctype \<Rightarrow> cname option" where
  "object_class (Class C) = Some C"
| "object_class (Ptr (Class C)) = Some C"
| "object_class (Ptr (Ptr T)) = None"
| "object_class (Ptr VoidPtr) = None"
| "object_class VoidPtr = None"

text \<open>The three lambdas of \<^verbatim>\<open>thunk_storage<T>::t\<close>.\<close>

definition thunk_copy ::
  "('o, 'a, 'r) program \<Rightarrow> ctype \<Rightarrow> addr \<Rightarrow> addr \<Rightarrow> 'o state \<Rightarrow> 'o state error + 'o state" where
  "thunk_copy E T dst src s =
     (case T of
        Class C \<Rightarrow>
          (case copy_ctor (class_of E C) of
             None \<Rightarrow> Inl IllFormed
           | Some f \<Rightarrow>
               (case read_obj (heap s) (Some src) of
                  None \<Rightarrow> Inl Undefined
                | Some v \<Rightarrow>
                    (case f v of
                       None \<Rightarrow> Inl (Throws ctor_exception s)
                     | Some v' \<Rightarrow> Inr (s\<lparr>heap := (heap s)(dst \<mapsto> Holds (Obj v'))\<rparr>))))
      | _ \<Rightarrow>
          (case read_ptr (heap s) (Some src) of
             None \<Rightarrow> Inl Undefined
           | Some q \<Rightarrow> Inr (s\<lparr>heap := (heap s)(dst \<mapsto> Holds (PtrV q))\<rparr>)))"

definition thunk_move ::
  "('o, 'a, 'r) program \<Rightarrow> ctype \<Rightarrow> addr \<Rightarrow> addr \<Rightarrow> 'o state \<Rightarrow> 'o state error + 'o state" where
  "thunk_move E T dst src s =
     (case T of
        Class C \<Rightarrow>
          (case move_init (class_of E C) of
             None \<Rightarrow> Inl IllFormed
           | Some g \<Rightarrow>
               (case read_obj (heap s) (Some src) of
                  None \<Rightarrow> Inl Undefined
                | Some v \<Rightarrow>
                    (case g v of
                       None \<Rightarrow> Inl (Throws ctor_exception s)
                     | Some (v', w) \<Rightarrow>
                         Inr (s\<lparr>heap := (heap s)(src \<mapsto> Holds (Obj w), dst \<mapsto> Holds (Obj v'))\<rparr>))))
      | _ \<Rightarrow>
          (case read_ptr (heap s) (Some src) of
             None \<Rightarrow> Inl Undefined
           | Some q \<Rightarrow> Inr (s\<lparr>heap := (heap s)(dst \<mapsto> Holds (PtrV q))\<rparr>)))"

definition thunk_destroy :: "addr \<Rightarrow> 'o state \<Rightarrow> 'o state" where
  "thunk_destroy p s = s\<lparr>heap := (heap s)(p \<mapsto> Raw)\<rparr>"

text \<open>\<^verbatim>\<open>struct thunk\<close>; an absent member is a null function pointer.\<close>

record 'o thunk =
  copy :: "(addr \<Rightarrow> addr \<Rightarrow> 'o state \<Rightarrow> 'o state error + 'o state) option"
  move :: "(addr \<Rightarrow> addr \<Rightarrow> 'o state \<Rightarrow> 'o state error + 'o state) option"
  destroy :: "(addr \<Rightarrow> 'o state \<Rightarrow> 'o state) option"
  size_bytes :: nat

text \<open>
  \<^verbatim>\<open>thunk_storage<T, std::is_constructible_v<T, const T&>>::t\<close>: the primary template and
  its specialisation for \<open>false\<close>.
\<close>

definition thunk_storage :: "('o, 'a, 'r) program \<Rightarrow> ctype \<Rightarrow> 'o thunk" where
  "thunk_storage E T =
     (if is_copy_constructible E T
      then \<lparr>copy = Some (thunk_copy E T), move = Some (thunk_move E T),
            destroy = Some thunk_destroy, size_bytes = sizeof E T\<rparr>
      else \<lparr>copy = None, move = None,
            destroy = Some thunk_destroy, size_bytes = sizeof E T\<rparr>)"

definition get_thunk :: "ctype \<Rightarrow> thunk_ptr" where
  "get_thunk T = (if is_pointer T then thunk_addr VoidPtr else thunk_addr T)"

fun deref_thunk :: "('o, 'a, 'r) program \<Rightarrow> thunk_ptr \<Rightarrow> 'o thunk" where
  "deref_thunk E (thunk_addr T) = thunk_storage E T"

definition is_pointer_thunk :: "thunk_ptr option \<Rightarrow> bool" where
  "is_pointer_thunk t = (t = Some (get_thunk VoidPtr))"

section \<open>The interface class\<close>

text \<open>
  \<^verbatim>\<open>INTERFACE_1\<close> to \<^verbatim>\<open>INTERFACE_8\<close> are one class body written out for eight arities. The
  contract of an interface type is the list of its method names
  \<^verbatim>\<open>METHOD_NAME0, METHOD_NAME1, ...\<close>; the dispatch table \<^verbatim>\<open>_vtable\<close> is a tuple with one entry
  per name.
\<close>

type_synonym contract = "mname list"

fun position :: "mname \<Rightarrow> contract \<Rightarrow> nat option" where
  "position m [] = None"
| "position m (n # K) = (if m = n then Some 0 else map_option Suc (position m K))"

text \<open>
  \<^verbatim>\<open>get_METHOD_NAMEk(i, tag)\<close> is \<^verbatim>\<open>get<k>(i._vtable)\<close>, a friend of the interface type of
  \<open>i\<close> (contract \<open>K\<close>) and found by name. \<open>None\<close>: that type declares no such friend.
\<close>

definition get_method :: "contract \<Rightarrow> mname \<Rightarrow> handle \<Rightarrow> fnptr option option" where
  "get_method K m i =
     (case position m K of
        None \<Rightarrow> None
      | Some k \<Rightarrow> if k < length (m_vtable i) then Some (m_vtable i ! k) else None)"

text \<open>\<^verbatim>\<open>METHOD_NAMEk_k_factory<T>::call(p, as...)\<close>\<close>

definition factory_call ::
  "('o, 'a, 'r) program \<Rightarrow> mname \<Rightarrow> ctype \<Rightarrow> addr option \<Rightarrow> 'a \<Rightarrow> 'o state
     \<Rightarrow> 'o state error + 'r \<times> 'o state" where
  "factory_call E m T p as s =
     (case object_class T of
        None \<Rightarrow> Inl IllFormed
      | Some C \<Rightarrow>
          (case methods (class_of E C) m of
             None \<Rightarrow> Inl IllFormed
           | Some f \<Rightarrow>
               (case as_object T p (heap s) of
                  None \<Rightarrow> Inl Undefined
                | Some q \<Rightarrow>
                    (case read_obj (heap s) (Some q) of
                       None \<Rightarrow> Inl Undefined
                     | Some v \<Rightarrow>
                         (let (r, v') = f v as
                          in Inr (r, s\<lparr>heap := (heap s)(q \<mapsto> Holds (Obj v'))\<rparr>))))))"

text \<open>A call through a dispatch-table entry; \<^verbatim>\<open>erasure_fn::value\<close> forwards to the factory.\<close>

fun call_fnptr ::
  "('o, 'a, 'r) program \<Rightarrow> fnptr option \<Rightarrow> addr option \<Rightarrow> 'a \<Rightarrow> 'o state
     \<Rightarrow> 'o state error + 'r \<times> 'o state" where
  "call_fnptr E None p as s = Inl Undefined"
| "call_fnptr E (Some (erasure_fn_value m T)) p as s = factory_call E m T p as s"

text \<open>The member \<^verbatim>\<open>METHOD_NAMEk(as...)\<close> of an interface with contract \<open>K\<close>.\<close>

definition dispatch ::
  "('o, 'a, 'r) program \<Rightarrow> contract \<Rightarrow> mname \<Rightarrow> handle \<Rightarrow> 'a \<Rightarrow> 'o state
     \<Rightarrow> 'o state error + 'r \<times> 'o state" where
  "dispatch E K m h as s =
     (case get_method K m h of
        None \<Rightarrow> Inl IllFormed
      | Some f \<Rightarrow> call_fnptr E f (m_ptr h) as s)"

text \<open>The default member initialisers.\<close>

definition ctor_default :: "contract \<Rightarrow> handle" where
  "ctor_default K = \<lparr>m_ptr = None, m_t = None, m_vtable = replicate (length K) None\<rparr>"

text \<open>\<^verbatim>\<open>explicit operator bool()\<close>\<close>

definition op_bool :: "handle \<Rightarrow> bool" where
  "op_bool h = (m_ptr h \<noteq> None)"

text \<open>
  \<^verbatim>\<open>swap(x, y)\<close> on two objects: three \<^verbatim>\<open>std::swap\<close>s, member by member. On the store the two
  references may name one object, which every \<^verbatim>\<open>std::swap\<close> then leaves as it is.
\<close>

definition swap_objs :: "handle \<Rightarrow> handle \<Rightarrow> handle \<times> handle" where
  "swap_objs x y =
     (let (x1, y1) = (x\<lparr>m_ptr := m_ptr y\<rparr>, y\<lparr>m_ptr := m_ptr x\<rparr>);
          (x2, y2) = (x1\<lparr>m_t := m_t y1\<rparr>, y1\<lparr>m_t := m_t x1\<rparr>);
          (x3, y3) = (x2\<lparr>m_vtable := m_vtable y2\<rparr>, y2\<lparr>m_vtable := m_vtable x2\<rparr>)
      in (x3, y3))"

definition swap :: "href \<Rightarrow> href \<Rightarrow> 'o state \<Rightarrow> 'o state" where
  "swap x y s =
     (if x = y then s
      else (let (hx, hy) = swap_objs (handles s x) (handles s y)
            in s\<lparr>handles := (handles s)(x := hx, y := hy)\<rparr>))"

text \<open>
  How the argument of a constructor is passed: \<^verbatim>\<open>std::is_lvalue_reference_v<I> ||
  std::is_const_v<I>\<close> selects the copy, and \<^verbatim>\<open>U{std::forward<T>(t)}\<close> selects the same way.
\<close>

datatype vcat = lvalue | const_rvalue | rvalue

fun copies :: "vcat \<Rightarrow> bool" where
  "copies lvalue = True"
| "copies const_rvalue = True"
| "copies rvalue = False"

text \<open>\<^verbatim>\<open>new (buf) U{std::forward<T>(t)}\<close>, the argument given by its value \<open>v\<close>.\<close>

definition placement_new ::
  "('o, 'a, 'r) program \<Rightarrow> ctype \<Rightarrow> vcat \<Rightarrow> 'o val \<Rightarrow> addr \<Rightarrow> 'o state
     \<Rightarrow> 'o state error + 'o state" where
  "placement_new E U cat v buf s =
     (case (U, v) of
        (Class C, Obj x) \<Rightarrow>
          (if copies cat
           then (case copy_ctor (class_of E C) of
                   None \<Rightarrow> Inl IllFormed
                 | Some f \<Rightarrow>
                     (case f x of
                        None \<Rightarrow> Inl (Throws ctor_exception s)
                      | Some x' \<Rightarrow> Inr (s\<lparr>heap := (heap s)(buf \<mapsto> Holds (Obj x'))\<rparr>)))
           else (case move_init (class_of E C) of
                   None \<Rightarrow> Inl IllFormed
                 | Some g \<Rightarrow>
                     (case g x of
                        None \<Rightarrow> Inl (Throws ctor_exception s)
                      | Some (x', w) \<Rightarrow> Inr (s\<lparr>heap := (heap s)(buf \<mapsto> Holds (Obj x'))\<rparr>))))
      | (Class C, PtrV q) \<Rightarrow> Inl IllFormed
      | (_, Obj x) \<Rightarrow> Inl IllFormed
      | (_, PtrV q) \<Rightarrow> Inr (s\<lparr>heap := (heap s)(buf \<mapsto> Holds (PtrV q))\<rparr>))"

text \<open>
  What instantiating \<^verbatim>\<open>METHOD_NAMEk_k_factory<U>::call\<close> needs: the object has a method of
  that name.
\<close>

definition has_method :: "('o, 'a, 'r) program \<Rightarrow> ctype \<Rightarrow> mname \<Rightarrow> bool" where
  "has_method E U m =
     (case object_class U of None \<Rightarrow> False | Some C \<Rightarrow> methods (class_of E C) m \<noteq> None)"

text \<open>The constructor from a value of any type that is not an interface.\<close>

definition ctor_value ::
  "('o, 'a, 'r) program \<Rightarrow> contract \<Rightarrow> ctype \<Rightarrow> vcat \<Rightarrow> 'o val \<Rightarrow> 'o state
     \<Rightarrow> 'o state error + handle \<times> 'o state" where
  "ctor_value E K U cat v s =
     (if \<not> alignof E U \<le> default_new_alignment E then Inl IllFormed
      else if \<not> is_copy_constructible E U then Inl IllFormed
      else if \<not> list_all (has_method E U) K then Inl IllFormed
      else (case new_bytes (sizeof E U) s of
              Inl e \<Rightarrow> Inl e
            | Inr (buf, s1) \<Rightarrow>
                (case placement_new E U cat v buf s1 of
                   Inl e \<Rightarrow> Inl (unwind buf e)
                 | Inr s2 \<Rightarrow>
                     Inr (\<lparr>m_ptr = Some buf, m_t = Some (get_thunk U),
                           m_vtable = map (\<lambda>m. Some (erasure_fn_value m U)) K\<rparr>, s2))))"

text \<open>
  \<^verbatim>\<open>construct(i)\<close> in an interface with contract \<open>K\<close>, from an interface \<open>i\<close> with contract
  \<open>KS\<close>; \<open>this\<close> is the object under construction.
\<close>

definition construct ::
  "('o, 'a, 'r) program \<Rightarrow> contract \<Rightarrow> contract \<Rightarrow> vcat \<Rightarrow> handle \<Rightarrow> handle \<Rightarrow> 'o state
     \<Rightarrow> 'o state error + handle \<times> 'o state" where
  "construct E K KS cat i this s =
     (if \<not> list_all (\<lambda>m. position m KS \<noteq> None) K then Inl IllFormed
      else if \<not> op_bool i then Inr (this, s)
      else (case (m_ptr i, m_t i) of
              (Some p, Some t) \<Rightarrow>
                (case new_bytes (size_bytes (deref_thunk E t)) s of
                   Inl e \<Rightarrow> Inl e
                 | Inr (buf, s1) \<Rightarrow>
                     (case (if copies cat then copy (deref_thunk E t) else move (deref_thunk E t)) of
                        None \<Rightarrow> Inl Undefined
                      | Some f \<Rightarrow>
                          (case f buf p s1 of
                             Inl e \<Rightarrow> Inl (unwind buf e)
                           | Inr s2 \<Rightarrow>
                               (case those (map (\<lambda>m. get_method KS m i) K) of
                                  None \<Rightarrow> Inl IllFormed
                                | Some vt \<Rightarrow>
                                    Inr (this\<lparr>m_ptr := Some buf, m_t := Some t, m_vtable := vt\<rparr>,
                                         s2)))))
            | _ \<Rightarrow> Inl Undefined))"

text \<open>
  The constructors that take an interface. The source is an object of the store; the new
  object is returned with the state.
\<close>

definition ctor_move :: "contract \<Rightarrow> href \<Rightarrow> 'o state \<Rightarrow> handle \<times> 'o state" where
  "ctor_move K other s =
     (let (this, other') = swap_objs (ctor_default K) (handles s other)
      in (this, s\<lparr>handles := (handles s)(other := other')\<rparr>))"

definition ctor_copy ::
  "('o, 'a, 'r) program \<Rightarrow> contract \<Rightarrow> href \<Rightarrow> 'o state \<Rightarrow> 'o state error + handle \<times> 'o state" where
  "ctor_copy E K other s = construct E K K lvalue (handles s other) (ctor_default K) s"

definition ctor_convert ::
  "('o, 'a, 'r) program \<Rightarrow> contract \<Rightarrow> contract \<Rightarrow> vcat \<Rightarrow> href \<Rightarrow> 'o state
     \<Rightarrow> 'o state error + handle \<times> 'o state" where
  "ctor_convert E K KS cat i s = construct E K KS cat (handles s i) (ctor_default K) s"

text \<open>The destructor.\<close>

definition destructor ::
  "('o, 'a, 'r) program \<Rightarrow> handle \<Rightarrow> 'o state \<Rightarrow> 'o state error + 'o state" where
  "destructor E h s =
     (case m_ptr h of
        None \<Rightarrow> Inr (delete_bytes None s)
      | Some p \<Rightarrow>
          (case m_t h of
             None \<Rightarrow> Inl Undefined
           | Some t \<Rightarrow>
               (case destroy (deref_thunk E t) of
                  None \<Rightarrow> Inl Undefined
                | Some d \<Rightarrow> Inr (delete_bytes (Some p) (d p s)))))"

text \<open>
  The two assignment operators. \<open>tmp\<close> is a local object; it is destroyed when the operator
  returns.
\<close>

definition copy_assign ::
  "('o, 'a, 'r) program \<Rightarrow> contract \<Rightarrow> href \<Rightarrow> href \<Rightarrow> 'o state \<Rightarrow> 'o state error + 'o state" where
  "copy_assign E K this other s =
     (case ctor_copy E K other s of
        Inl e \<Rightarrow> Inl e
      | Inr (tmp, s1) \<Rightarrow>
          (let (this', tmp') = swap_objs (handles s1 this) tmp
           in destructor E tmp' (s1\<lparr>handles := (handles s1)(this := this')\<rparr>)))"

definition move_assign ::
  "('o, 'a, 'r) program \<Rightarrow> contract \<Rightarrow> href \<Rightarrow> href \<Rightarrow> 'o state \<Rightarrow> 'o state error + 'o state" where
  "move_assign E K this other s =
     (let (tmp, s1) = ctor_move K other s;
          (this', tmp') = swap_objs (handles s1 this) tmp
      in destructor E tmp' (s1\<lparr>handles := (handles s1)(this := this')\<rparr>))"

text \<open>\<^verbatim>\<open>target<T>(i)\<close>; the three overloads have one body.\<close>

definition target :: "ctype \<Rightarrow> handle \<Rightarrow> addr option" where
  "target T i = (if m_t i = Some (get_thunk T) then m_ptr i else None)"

text \<open>\<^verbatim>\<open>operator==\<close> and \<^verbatim>\<open>operator!=\<close>; \<open>None\<close> is a read through a null or dead pointer.\<close>

definition op_eq :: "handle \<Rightarrow> handle \<Rightarrow> 'o heap \<Rightarrow> bool option" where
  "op_eq this rhs hp =
     (if m_ptr this = None then Some (m_ptr rhs = None)
      else if is_pointer_thunk (m_t this) \<and> is_pointer_thunk (m_t rhs)
      then (case (read_ptr hp (m_ptr this), read_ptr hp (m_ptr rhs)) of
              (Some a, Some b) \<Rightarrow> Some (a = b)
            | _ \<Rightarrow> None)
      else Some False)"

definition op_ne :: "handle \<Rightarrow> handle \<Rightarrow> 'o heap \<Rightarrow> bool option" where
  "op_ne this rhs hp = map_option Not (op_eq this rhs hp)"

section \<open>Notions of the specification\<close>

text \<open>
  A Handle is empty when it tests false. It is in reference mode when its lifecycle
  descriptor is the one all pointer types share, and in value mode when it is non-empty and
  not in reference mode.
\<close>

definition reference_mode :: "handle \<Rightarrow> bool" where
  "reference_mode h = is_pointer_thunk (m_t h)"

text \<open>The invariant of section 3: the data pointer is null iff the descriptor pointer is.\<close>

definition null_together :: "handle \<Rightarrow> bool" where
  "null_together h = (m_ptr h = None \<longleftrightarrow> m_t h = None)"

text \<open>
  A Handle in good standing: data pointer and descriptor are null together, and the buffer
  of a Handle in reference mode holds a pointer.
\<close>

definition valid_handle :: "'o heap \<Rightarrow> handle \<Rightarrow> bool" where
  "valid_handle hp h =
     ((m_ptr h = None \<longleftrightarrow> m_t h = None) \<and>
      (is_pointer_thunk (m_t h) \<longrightarrow> read_ptr hp (m_ptr h) \<noteq> None))"

text \<open>
  A Handle of the interface type with contract \<open>K\<close>: the method names are distinct (each
  names a member of the class) and the dispatch table has one entry per name.
\<close>

definition has_contract :: "contract \<Rightarrow> handle \<Rightarrow> bool" where
  "has_contract K h = (distinct K \<and> length (m_vtable h) = length K)"

text \<open>Two Handles do not share a buffer.\<close>

definition disjoint_buffers :: "handle \<Rightarrow> handle \<Rightarrow> bool" where
  "disjoint_buffers a b = (m_ptr a = None \<or> m_ptr a \<noteq> m_ptr b)"

text \<open>
  A non-empty Handle owns a live payload of the type its descriptor stands for, and that
  type is copy-constructible, as the constructor from a value asserts.
\<close>

definition owns_payload :: "('o, 'a, 'r) program \<Rightarrow> 'o heap \<Rightarrow> handle \<Rightarrow> bool" where
  "owns_payload E hp h =
     (case (m_ptr h, m_t h) of
        (None, None) \<Rightarrow> True
      | (Some p, Some (thunk_addr T)) \<Rightarrow>
          is_copy_constructible E T \<and>
          (case T of
             Class C \<Rightarrow> read_obj hp (Some p) \<noteq> None
           | _ \<Rightarrow> read_ptr hp (Some p) \<noteq> None)
      | _ \<Rightarrow> False)"

text \<open>The payload a Handle owns: the content of its buffer.\<close>

definition payload :: "'o heap \<Rightarrow> handle \<Rightarrow> 'o cell option" where
  "payload hp h = (case m_ptr h of None \<Rightarrow> None | Some p \<Rightarrow> hp p)"

text \<open>
  The C++ requirements \<^emph>\<open>CopyConstructible\<close> and \<^emph>\<open>MoveConstructible\<close> on a class: the
  constructed object is equal to the argument (as it was before the call), and copying
  leaves the argument alone.
\<close>

definition value_preserving :: "('o, 'a, 'r) class_decl \<Rightarrow> bool" where
  "value_preserving cd =
     ((\<forall>f x x'. copy_ctor cd = Some f \<and> f x = Some x' \<longrightarrow> x' = x) \<and>
      (\<forall>g x x' w. move_ctor cd = Some g \<and> g x = Some (x', w) \<longrightarrow> x' = x))"

text \<open>What a caller observes of a call: the value returned, if the call returns.\<close>

definition returned :: "'s error + 'r \<times> 's \<Rightarrow> 'r option" where
  "returned res = (case res of Inl e \<Rightarrow> None | Inr (r, s) \<Rightarrow> Some r)"

text \<open>What a call does: the value returned and the memory it leaves, if the call returns.\<close>

definition effect :: "'o state error + 'r \<times> 'o state \<Rightarrow> ('r \<times> 'o heap) option" where
  "effect res = (case res of Inl e \<Rightarrow> None | Inr (r, s) \<Rightarrow> Some (r, heap s))"

text \<open>The allocator has not handed out the addresses from \<open>brk\<close> upwards.\<close>

definition unallocated_above_brk :: "'o state \<Rightarrow> bool" where
  "unallocated_above_brk s = (\<forall>a. brk s \<le> a \<longrightarrow> heap s a = None)"

text \<open>
  The states a program can reach. It starts with its interface variables empty; a
  declaration constructs a new object and binds it to a name; assignments, \<open>swap\<close> and
  method calls work on the objects that exist. A constructor or an assignment that throws
  leaves the state it had at the throw.
\<close>

definition bind :: "href \<Rightarrow> handle \<Rightarrow> 'o state \<Rightarrow> 'o state" where
  "bind x h s = s\<lparr>handles := (handles s)(x := h)\<rparr>"

inductive reachable :: "('o, 'a, 'r) program \<Rightarrow> 'o state \<Rightarrow> bool" for E :: "('o, 'a, 'r) program" where
  start: "(\<And>x. m_ptr (handles s x) = None \<and> m_t (handles s x) = None) \<Longrightarrow> reachable E s"
| declare_default: "reachable E s \<Longrightarrow> reachable E (bind x (ctor_default K) s)"
| declare_value:
    "reachable E s \<Longrightarrow> ctor_value E K U cat v s = Inr (h, s') \<Longrightarrow> reachable E (bind x h s')"
| declare_copy:
    "reachable E s \<Longrightarrow> ctor_copy E K y s = Inr (h, s') \<Longrightarrow> reachable E (bind x h s')"
| declare_convert:
    "reachable E s \<Longrightarrow> ctor_convert E K KS cat y s = Inr (h, s') \<Longrightarrow> reachable E (bind x h s')"
| declare_move:
    "reachable E s \<Longrightarrow> ctor_move K y s = (h, s') \<Longrightarrow> reachable E (bind x h s')"
| assign_copy: "reachable E s \<Longrightarrow> copy_assign E K x y s = Inr s' \<Longrightarrow> reachable E s'"
| assign_move: "reachable E s \<Longrightarrow> move_assign E K x y s = Inr s' \<Longrightarrow> reachable E s'"
| swapped: "reachable E s \<Longrightarrow> reachable E (swap x y s)"
| called:
    "reachable E s \<Longrightarrow> dispatch E K m (handles s x) as s = Inr (r, s') \<Longrightarrow> reachable E s'"
| value_throws:
    "reachable E s \<Longrightarrow> ctor_value E K U cat v s = Inl (Throws e s') \<Longrightarrow> reachable E s'"
| convert_throws:
    "reachable E s \<Longrightarrow> ctor_convert E K KS cat y s = Inl (Throws e s') \<Longrightarrow> reachable E s'"
| assign_throws:
    "reachable E s \<Longrightarrow> copy_assign E K x y s = Inl (Throws e s') \<Longrightarrow> reachable E s'"

section \<open>An example program\<close>

text \<open>
  Two shapes with an \<open>area\<close> and a \<open>scale\<close> method (the state of a shape is its side or
  radius), and a class that can be moved but not copied.
\<close>

definition Square :: "(int, int, int) class_decl" where
  "Square =
     \<lparr>copy_ctor = Some (\<lambda>x. Some x), move_ctor = None, sizeof_class = 4, alignof_class = 4,
      methods = (\<lambda>m. if m = ''area'' then Some (\<lambda>x a. (x * x, x))
                     else if m = ''scale'' then Some (\<lambda>x a. (x * a, x * a))
                     else None)\<rparr>"

definition Circle :: "(int, int, int) class_decl" where
  "Circle =
     \<lparr>copy_ctor = Some (\<lambda>x. Some x), move_ctor = None, sizeof_class = 4, alignof_class = 4,
      methods = (\<lambda>m. if m = ''area'' then Some (\<lambda>x a. (3 * x * x, x))
                     else if m = ''scale'' then Some (\<lambda>x a. (x * a, x * a))
                     else None)\<rparr>"

definition Token :: "(int, int, int) class_decl" where
  "Token =
     \<lparr>copy_ctor = None, move_ctor = Some (\<lambda>x. Some (x, 0)), sizeof_class = 8, alignof_class = 8,
      methods = (\<lambda>m. None)\<rparr>"

definition shapes :: "(int, int, int) program" where
  "shapes =
     \<lparr>class_of = (\<lambda>C. if C = ''Square'' then Square else if C = ''Circle'' then Circle else Token),
      sizeof_ptr = 8, default_new_alignment = 16\<rparr>"

text \<open>
  A state with two squares of side 4 at the addresses 0 and 1, outside the allocator's
  range, and no interface object holding anything.
\<close>

definition state0 :: "int state" where
  "state0 =
     \<lparr>heap = [0 \<mapsto> Holds (Obj 4), 1 \<mapsto> Holds (Obj 4)], brk = 2, capacity = 64,
      handles = (\<lambda>x. ctor_default [''area''])\<rparr>"

text \<open>
  The Handle that wrapping a square of side 4 yields in \<open>state0\<close>, the Handle that wrapping
  the address of the square at 0 yields, and the states after each construction.
\<close>

definition square_handle :: handle where
  "square_handle =
     \<lparr>m_ptr = Some 2, m_t = Some (thunk_addr (Class ''Square'')),
      m_vtable = [Some (erasure_fn_value ''area'' (Class ''Square''))]\<rparr>"

text \<open>The same square wrapped in a Handle of the richer contract \<open>area, scale\<close>.\<close>

definition square_handle2 :: handle where
  "square_handle2 =
     \<lparr>m_ptr = Some 2, m_t = Some (thunk_addr (Class ''Square'')),
      m_vtable = [Some (erasure_fn_value ''area'' (Class ''Square'')),
                  Some (erasure_fn_value ''scale'' (Class ''Square''))]\<rparr>"

definition state1 :: "int state" where
  "state1 = state0\<lparr>heap := (heap state0)(2 \<mapsto> Holds (Obj 4)), brk := 3\<rparr>"

definition ref_handle :: "addr \<Rightarrow> handle" where
  "ref_handle b =
     \<lparr>m_ptr = Some b, m_t = Some (thunk_addr VoidPtr),
      m_vtable = [Some (erasure_fn_value ''area'' (Ptr (Class ''Square'')))]\<rparr>"

definition state2 :: "int state" where
  "state2 = state0\<lparr>heap := (heap state0)(2 \<mapsto> Holds (PtrV (Some 0))), brk := 3\<rparr>"


section \<open>Basic facts\<close>

lemma get_thunk_pointer: "get_thunk T = get_thunk VoidPtr \<longleftrightarrow> is_pointer T"
  by (cases T) (simp_all add: get_thunk_def)

lemma get_thunk_class: "get_thunk T = get_thunk (Class C) \<longleftrightarrow> T = Class C"
  by (cases T) (simp_all add: get_thunk_def)

lemma new_bytes_Inr:
  "new_bytes n s = Inr (a, s1) \<Longrightarrow>
     a = brk s \<and> heap s1 = (heap s)(brk s \<mapsto> Raw) \<and> brk s1 = Suc (brk s) \<and>
     capacity s1 = capacity s \<and> handles s1 = handles s"
  by (auto simp: new_bytes_def split: if_splits)

lemma placement_new_Inr:
  "placement_new E U cat v buf s = Inr s2 \<Longrightarrow>
     \<exists>w. heap s2 = (heap s)(buf \<mapsto> Holds w) \<and> brk s2 = brk s \<and> capacity s2 = capacity s \<and>
         handles s2 = handles s \<and> (is_pointer U \<longleftrightarrow> (\<exists>q. w = PtrV q)) \<and> (is_pointer U \<longrightarrow> w = v)"
  by (auto simp: placement_new_def split: ctype.splits val.splits if_splits option.splits)

lemma placement_new_preserving:
  "placement_new E (Class C) cat (Obj x) buf s = Inr s2 \<Longrightarrow> value_preserving (class_of E C) \<Longrightarrow>
     heap s2 = (heap s)(buf \<mapsto> Holds (Obj x))"
  by (auto simp: placement_new_def value_preserving_def move_init_def
      split: if_splits option.splits)

lemma ctor_value_Inr:
  assumes "ctor_value E K U cat v s = Inr (h, s')"
  shows "\<exists>w. h = \<lparr>m_ptr = Some (brk s), m_t = Some (get_thunk U),
                 m_vtable = map (\<lambda>m. Some (erasure_fn_value m U)) K\<rparr>
           \<and> heap s' = (heap s)(brk s \<mapsto> Holds w) \<and> brk s' = Suc (brk s)
           \<and> capacity s' = capacity s \<and> handles s' = handles s
           \<and> (is_pointer U \<longleftrightarrow> (\<exists>q. w = PtrV q)) \<and> (is_pointer U \<longrightarrow> w = v)
           \<and> list_all (has_method E U) K"
  using assms
  apply (simp add: ctor_value_def split: if_splits sum.splits prod.splits)
  apply (auto dest!: new_bytes_Inr placement_new_Inr)
  done

lemma ctor_value_preserving:
  assumes "ctor_value E K (Class C) cat (Obj x) s = Inr (h, s')"
    and "value_preserving (class_of E C)"
  shows "heap s' = (heap s)(brk s \<mapsto> Holds (Obj x))"
  using assms
  apply (simp add: ctor_value_def split: if_splits sum.splits prod.splits)
  apply (auto dest!: new_bytes_Inr placement_new_preserving)
  done

lemma ctor_value_square:
  "ctor_value shapes [''area''] (Class ''Square'') lvalue (Obj 4) state0 = Inr (square_handle, state1)"
  by (simp add: ctor_value_def shapes_def Square_def state0_def alignof_def sizeof_def
      is_copy_constructible_def has_method_def new_bytes_def placement_new_def get_thunk_def
      square_handle_def state1_def)

lemma ctor_value_ref:
  "ctor_value shapes [''area''] (Ptr (Class ''Square'')) lvalue (PtrV (Some 0)) state0
     = Inr (ref_handle 2, state2)"
  by (simp add: ctor_value_def shapes_def Square_def state0_def alignof_def sizeof_def
      is_copy_constructible_def has_method_def new_bytes_def placement_new_def get_thunk_def
      ref_handle_def state2_def)

lemma value_preserving_Square: "value_preserving (class_of shapes ''Square'')"
  by (simp add: value_preserving_def shapes_def Square_def)

section \<open>Equality (section 4.5)\<close>

text \<open>
  C3: for two Handles of one interface type in good standing, \<open>operator==\<close> returns true
  iff both are empty, or both are in reference mode and the pointers they store are equal;
  in every other combination it returns false, also for two Handles in value mode whatever
  their payloads are; \<open>operator!=\<close> is its negation.
\<close>

theorem equality_is_identity:
  assumes "valid_handle hp a" and "valid_handle hp b"
  shows "op_eq a b hp =
           Some ((\<not> op_bool a \<and> \<not> op_bool b) \<or>
                 (reference_mode a \<and> reference_mode b \<and>
                  read_ptr hp (m_ptr a) = read_ptr hp (m_ptr b)))
       \<and> op_ne a b hp =
           Some (\<not> ((\<not> op_bool a \<and> \<not> op_bool b) \<or>
                 (reference_mode a \<and> reference_mode b \<and>
                  read_ptr hp (m_ptr a) = read_ptr hp (m_ptr b))))
       \<and> (op_bool a \<and> \<not> reference_mode a \<longrightarrow> op_eq a b hp = Some False)
       \<and> (op_bool b \<and> \<not> reference_mode b \<and> op_bool a \<longrightarrow> op_eq a b hp = Some False)"
  using assms
  by (auto simp: op_eq_def op_ne_def valid_handle_def op_bool_def reference_mode_def
      is_pointer_thunk_def split: option.splits)

theorem equality_is_identity_witness:
  "valid_handle (heap state2) (ref_handle 2) \<and> valid_handle (heap state2) (ctor_default [''area''])
   \<and> op_eq (ref_handle 2) (ref_handle 2) (heap state2) = Some True
   \<and> op_eq (ref_handle 2) (ctor_default [''area'']) (heap state2) = Some False
   \<and> op_ne (ref_handle 2) (ctor_default [''area'']) (heap state2) = Some True"
proof -
  have a: "valid_handle (heap state2) (ref_handle 2)"
    by (simp add: valid_handle_def ref_handle_def state2_def state0_def read_ptr_def)
  have b: "valid_handle (heap state2) (ctor_default [''area''])"
    by (simp add: valid_handle_def ctor_default_def is_pointer_thunk_def)
  show ?thesis
    using a b equality_is_identity [OF a a] equality_is_identity [OF a b]
    by (simp add: op_bool_def reference_mode_def ref_handle_def ctor_default_def
        is_pointer_thunk_def get_thunk_def)
qed

section \<open>Self-comparison and downcasting (sections 4.4 and 4.5)\<close>

lemma value_mode_self_unequal:
  "op_bool h \<and> \<not> reference_mode h \<Longrightarrow> op_eq h h hp = Some False \<and> op_ne h h hp = Some True"
  by (auto simp: op_eq_def op_ne_def op_bool_def reference_mode_def)

text \<open>
  C10: a Handle compared with itself is equal exactly when it is empty or in reference
  mode; a non-empty Handle in value mode, such as one constructed from a value of a type
  that is not a pointer, is unequal to itself: \<open>h == h\<close> is false and \<open>h != h\<close> is true.
\<close>

theorem equality_not_reflexive:
  "(valid_handle hp h \<longrightarrow>
      op_eq h h hp = Some (\<not> op_bool h \<or> reference_mode h) \<and>
      op_ne h h hp = Some (op_bool h \<and> \<not> reference_mode h))
   \<and> (op_bool h \<and> \<not> reference_mode h \<longrightarrow>
        op_eq h h hp = Some False \<and> op_ne h h hp = Some True)
   \<and> (ctor_value E K U cat v s = Inr (h, s') \<and> \<not> is_pointer U \<longrightarrow>
        op_bool h \<and> \<not> reference_mode h \<and>
        op_eq h h (heap s') = Some False \<and> op_ne h h (heap s') = Some True)"
proof (intro conjI impI)
  assume "valid_handle hp h"
  then show "op_eq h h hp = Some (\<not> op_bool h \<or> reference_mode h)"
    by (auto simp: op_eq_def valid_handle_def op_bool_def reference_mode_def
        is_pointer_thunk_def split: option.splits)
  from \<open>valid_handle hp h\<close> show "op_ne h h hp = Some (op_bool h \<and> \<not> reference_mode h)"
    by (auto simp: op_eq_def op_ne_def valid_handle_def op_bool_def reference_mode_def
        is_pointer_thunk_def split: option.splits)
next
  assume "op_bool h \<and> \<not> reference_mode h"
  then show "op_eq h h hp = Some False" and "op_ne h h hp = Some True"
    by (rule value_mode_self_unequal [THEN conjunct1], rule value_mode_self_unequal [THEN conjunct2])
next
  assume a: "ctor_value E K U cat v s = Inr (h, s') \<and> \<not> is_pointer U"
  then have b: "op_bool h \<and> \<not> reference_mode h"
    by (auto dest!: ctor_value_Inr
        simp: op_bool_def reference_mode_def is_pointer_thunk_def get_thunk_pointer)
  from b show "op_bool h" and "\<not> reference_mode h" by simp_all
  from b show "op_eq h h (heap s') = Some False" and "op_ne h h (heap s') = Some True"
    by (rule value_mode_self_unequal [THEN conjunct1], rule value_mode_self_unequal [THEN conjunct2])
qed

theorem equality_not_reflexive_witness:
  "valid_handle (heap state1) square_handle
   \<and> ctor_value shapes [''area''] (Class ''Square'') lvalue (Obj 4) state0 = Inr (square_handle, state1)
   \<and> \<not> is_pointer (Class ''Square'')
   \<and> op_bool square_handle \<and> \<not> reference_mode square_handle
   \<and> op_eq square_handle square_handle (heap state1) = Some False
   \<and> op_ne square_handle square_handle (heap state1) = Some True"
proof -
  have a: "valid_handle (heap state1) square_handle"
    by (simp add: valid_handle_def square_handle_def is_pointer_thunk_def get_thunk_def)
  show ?thesis
    using a ctor_value_square
      equality_not_reflexive [of "heap state1" square_handle shapes "[''area'']"
        "Class ''Square''" lvalue "Obj 4" state0 state1]
    by simp
qed

text \<open>
  C4: for a Handle constructed from a pointer, of any pointee type, and for every pointer
  type \<open>T\<close>, \<open>target<T>\<close> returns the Handle's data pointer, which is not null: all pointer
  types share the descriptor of \<open>void*\<close>.
\<close>

theorem target_any_pointer_type:
  assumes "ctor_value E K U cat v s = Inr (h, s')" and "is_pointer U" and "is_pointer T"
  shows "reference_mode h \<and> get_thunk T = get_thunk U \<and> target T h = m_ptr h \<and> target T h \<noteq> None"
  using assms
  by (cases T; cases U) (auto dest!: ctor_value_Inr simp: target_def get_thunk_def reference_mode_def is_pointer_thunk_def)

theorem target_any_pointer_type_witness:
  "ctor_value shapes [''area''] (Ptr (Class ''Square'')) lvalue (PtrV (Some 0)) state0
     = Inr (ref_handle 2, state2)
   \<and> is_pointer (Ptr (Class ''Square'')) \<and> is_pointer (Ptr (Class ''Circle''))
   \<and> target (Ptr (Class ''Circle'')) (ref_handle 2) = Some 2"
  using ctor_value_ref
    target_any_pointer_type [of shapes "[''area'']" "Ptr (Class ''Square'')" lvalue
      "PtrV (Some 0)" state0 "ref_handle 2" state2 "Ptr (Class ''Circle'')"]
  by (simp add: ref_handle_def)

text \<open>
  C2: wrapping a value \<open>x\<close> of a copy-constructible class \<open>C\<close> (whose constructors yield an
  object equal to their argument) and calling \<open>target<C>\<close> returns a non-null pointer to an
  object equal to \<open>x\<close>; \<open>target<T>\<close> is null for every type \<open>T\<close> with another descriptor, which
  is every other type.
\<close>

theorem target_round_trip:
  assumes "ctor_value E K (Class C) cat (Obj x) s = Inr (h, s')"
    and "value_preserving (class_of E C)"
  shows "(\<exists>p. target (Class C) h = Some p \<and> heap s' p = Some (Holds (Obj x)))
       \<and> (\<forall>T. get_thunk T \<noteq> get_thunk (Class C) \<longrightarrow> target T h = None)
       \<and> (\<forall>T. T \<noteq> Class C \<longrightarrow> target T h = None)"
proof -
  from assms(1) obtain w where
    h: "h = \<lparr>m_ptr = Some (brk s), m_t = Some (get_thunk (Class C)),
             m_vtable = map (\<lambda>m. Some (erasure_fn_value m (Class C))) K\<rparr>"
    by (blast dest: ctor_value_Inr)
  have hp: "heap s' = (heap s)(brk s \<mapsto> Holds (Obj x))"
    using assms by (rule ctor_value_preserving)
  have "target (Class C) h = Some (brk s)" by (simp add: h target_def)
  moreover have "heap s' (brk s) = Some (Holds (Obj x))" by (simp add: hp)
  moreover have "target T h = None" if "get_thunk T \<noteq> get_thunk (Class C)" for T
    using that by (auto simp add: h target_def)
  moreover have "target T h = None" if "T \<noteq> Class C" for T
    using that get_thunk_class [of T C] by (auto simp add: h target_def)
  ultimately show ?thesis by blast
qed

theorem target_round_trip_witness:
  "ctor_value shapes [''area''] (Class ''Square'') lvalue (Obj 4) state0 = Inr (square_handle, state1)
   \<and> value_preserving (class_of shapes ''Square'')
   \<and> target (Class ''Square'') square_handle = Some 2
   \<and> heap state1 2 = Some (Holds (Obj 4))
   \<and> target (Class ''Circle'') square_handle = None"
  using ctor_value_square value_preserving_Square
    target_round_trip [of shapes "[''area'']" "''Square''" lvalue 4 state0 square_handle state1]
  by (auto simp: square_handle_def target_def get_thunk_def)

section \<open>Moving a Handle, and lifecycle descriptors\<close>

lemma factory_call_heap_only:
  assumes "heap s' = heap s"
  shows "effect (factory_call E m T p as s') = effect (factory_call E m T p as s)"
proof (cases "object_class T")
  case None
  then show ?thesis by (simp add: factory_call_def)
next
  case C: (Some C)
  show ?thesis
  proof (cases "methods (class_of E C) m")
    case None
    with C show ?thesis by (simp add: factory_call_def)
  next
    case f: (Some f)
    show ?thesis
    proof (cases "as_object T p (heap s)")
      case None
      with C f assms show ?thesis by (simp add: factory_call_def)
    next
      case q: (Some q)
      show ?thesis
      proof (cases "read_obj (heap s) (Some q)")
        case None
        with C f q assms show ?thesis by (simp add: factory_call_def)
      next
        case (Some v)
        with C f q assms show ?thesis
          by (cases "f v as") (simp add: factory_call_def effect_def)
      qed
    qed
  qed
qed

lemma dispatch_heap_only:
  "heap s' = heap s \<Longrightarrow> effect (dispatch E K m h as s') = effect (dispatch E K m h as s)"
proof -
  assume a: "heap s' = heap s"
  have "effect (call_fnptr E f p as s') = effect (call_fnptr E f p as s)" for f p
  proof (cases f)
    case None
    then show ?thesis by (simp add: effect_def)
  next
    case (Some g)
    then show ?thesis by (cases g) (simp add: factory_call_heap_only [OF a])
  qed
  then show ?thesis by (simp add: dispatch_def split: option.splits)
qed

lemma swap_objs_default:
  "swap_objs (ctor_default K) h = (h, ctor_default K)"
  by (simp add: swap_objs_def ctor_default_def)

lemma ctor_move_eq:
  "ctor_move K y s = (handles s y, s\<lparr>handles := (handles s)(y := ctor_default K)\<rparr>)"
  by (simp add: ctor_move_def swap_objs_default)

text \<open>
  C5: move-constructing \<open>h2\<close> from the Handle \<open>y\<close> leaves \<open>y\<close> empty (it tests false, its data
  pointer and its descriptor are null) and gives \<open>h2\<close> the state \<open>y\<close> had: the same data
  pointer, descriptor and dispatch table. Memory is untouched, so a call on \<open>h2\<close> does what
  the call on \<open>y\<close> did before.
\<close>

theorem move_empties_source:
  "fst (ctor_move K y s) = handles s y
   \<and> handles (snd (ctor_move K y s)) = (handles s)(y := ctor_default K)
   \<and> \<not> op_bool (handles (snd (ctor_move K y s)) y)
   \<and> m_ptr (handles (snd (ctor_move K y s)) y) = None
   \<and> m_t (handles (snd (ctor_move K y s)) y) = None
   \<and> heap (snd (ctor_move K y s)) = heap s
   \<and> effect (dispatch E K m (fst (ctor_move K y s)) as (snd (ctor_move K y s)))
       = effect (dispatch E K m (handles s y) as s)"
  using dispatch_heap_only [of "s\<lparr>handles := (handles s)(y := ctor_default K)\<rparr>" s E K m "handles s y" as]
  by (simp add: ctor_move_eq op_bool_def ctor_default_def)

theorem move_empties_source_witness:
  "fst (ctor_move [''area''] 0 (bind 0 square_handle state1)) = square_handle
   \<and> \<not> op_bool (handles (snd (ctor_move [''area''] 0 (bind 0 square_handle state1))) 0)
   \<and> effect (dispatch shapes [''area''] ''area''
        (fst (ctor_move [''area''] 0 (bind 0 square_handle state1))) 0
        (snd (ctor_move [''area''] 0 (bind 0 square_handle state1))))
      = Some (16, heap state1)"
proof -
  let ?s = "bind 0 square_handle state1"
  note t = move_empties_source [of "[''area'']" 0 ?s shapes "''area''" 0]
  have h: "handles ?s 0 = square_handle"
    by (simp add: bind_def)
  have "effect (dispatch shapes [''area''] ''area'' square_handle 0 ?s) = Some (16, heap state1)"
    by (simp add: effect_def dispatch_def get_method_def square_handle_def factory_call_def
        shapes_def Square_def as_object_def read_obj_def state1_def bind_def fun_upd_idem)
  with h have a: "effect (dispatch shapes [''area''] ''area'' (handles ?s 0) 0 ?s)
      = Some (16, heap state1)"
    by simp
  have "fst (ctor_move [''area''] 0 ?s) = square_handle"
    using t h by simp
  moreover have "\<not> op_bool (handles (snd (ctor_move [''area''] 0 ?s)) 0)"
    using t by blast
  moreover have "effect (dispatch shapes [''area''] ''area'' (fst (ctor_move [''area''] 0 ?s)) 0
        (snd (ctor_move [''area''] 0 ?s))) = Some (16, heap state1)"
    using t [THEN conjunct2, THEN conjunct2, THEN conjunct2, THEN conjunct2, THEN conjunct2,
        THEN conjunct2] a
    by (rule trans)
  ultimately show ?thesis by blast
qed

text \<open>
  C9 (as the code has it): in the descriptor of a type, the copy operation and the move
  operation are both absent exactly when the type is not constructible from a const
  reference to itself; the destroy operation is always present.
\<close>

theorem thunk_operations_absent:
  "(copy (thunk_storage E T) = None \<longleftrightarrow> \<not> is_copy_constructible E T)
   \<and> (move (thunk_storage E T) = None \<longleftrightarrow> \<not> is_copy_constructible E T)
   \<and> destroy (thunk_storage E T) \<noteq> None
   \<and> size_bytes (thunk_storage E T) = sizeof E T"
  by (simp add: thunk_storage_def)

text \<open>
  The class \<open>Token\<close> can be moved and cannot be copied; its descriptor has no move
  operation.
\<close>

theorem thunk_move_absent_counterexample:
  "is_move_constructible shapes (Class ''Token'')
   \<and> \<not> is_copy_constructible shapes (Class ''Token'')
   \<and> move (thunk_storage shapes (Class ''Token'')) = None"
  by (simp add: is_move_constructible_def is_copy_constructible_def thunk_storage_def
      shapes_def Token_def move_init_def)

section \<open>Method dispatch (section 4.3)\<close>

lemma position_nth: "position m K = Some k \<Longrightarrow> k < length K \<and> K ! k = m"
proof (induction K arbitrary: k)
  case Nil
  then show ?case by simp
next
  case (Cons n K)
  then show ?case by (cases "m = n") auto
qed

lemma position_mem: "m \<in> set K \<Longrightarrow> \<exists>k. position m K = Some k"
  by (induction K) auto

lemma position_Some_mem: "position m K = Some k \<Longrightarrow> m \<in> set K"
  using position_nth nth_mem by blast

lemma placement_new_class:
  assumes "placement_new E (Class C) cat v buf s = Inr s2"
  shows "\<exists>x0 x. v = Obj x0 \<and> heap s2 = (heap s)(buf \<mapsto> Holds (Obj x)) \<and>
          (if copies cat then \<exists>f. copy_ctor (class_of E C) = Some f \<and> f x0 = Some x
           else \<exists>g w. move_init (class_of E C) = Some g \<and> g x0 = Some (x, w))"
  using assms
  by (auto simp: placement_new_def split: val.splits if_splits option.splits)

lemma ctor_value_class:
  assumes "ctor_value E K (Class C) cat v s = Inr (h, s')"
  shows "\<exists>x0 x. v = Obj x0 \<and> heap s' = (heap s)(brk s \<mapsto> Holds (Obj x)) \<and>
          (if copies cat then \<exists>f. copy_ctor (class_of E C) = Some f \<and> f x0 = Some x
           else \<exists>g w. move_init (class_of E C) = Some g \<and> g x0 = Some (x, w))"
proof -
  from assms obtain s1 s2 where
    n: "new_bytes (sizeof E (Class C)) s = Inr (brk s, s1)" "heap s1 = (heap s)(brk s \<mapsto> Raw)"
    and p: "placement_new E (Class C) cat v (brk s) s1 = Inr s2" and "s' = s2"
    by (auto simp: ctor_value_def split: if_splits sum.splits prod.splits dest: new_bytes_Inr)
  with placement_new_class [OF p] show ?thesis by auto
qed

lemma get_method_ctor_value:
  assumes "position m K = Some k"
  shows "get_method K m \<lparr>m_ptr = p, m_t = t, m_vtable = map (\<lambda>m. Some (erasure_fn_value m U)) K\<rparr>
           = Some (Some (erasure_fn_value m U))"
  using position_nth [OF assms] assms by (simp add: get_method_def)


lemma has_method_class:
  "has_method E (Class C) m \<Longrightarrow> \<exists>f. methods (class_of E C) m = Some f"
  by (auto simp: has_method_def)

lemma has_method_pointer:
  "has_method E U m \<Longrightarrow> is_pointer U \<Longrightarrow>
     \<exists>C f. U = Ptr (Class C) \<and> methods (class_of E C) m = Some f"
  by (cases U rule: object_class.cases) (auto simp: has_method_def)

lemma factory_call_value:
  assumes "methods (class_of E C) m = Some f" and "heap s p = Some (Holds (Obj x))"
  shows "factory_call E m (Class C) (Some p) as s
           = Inr (fst (f x as), s\<lparr>heap := (heap s)(p \<mapsto> Holds (Obj (snd (f x as))))\<rparr>)"
  using assms by (simp add: factory_call_def as_object_def read_obj_def split: prod.splits)

lemma factory_call_reference:
  assumes "methods (class_of E C) m = Some f" and "heap s p = Some (Holds (PtrV (Some q)))"
    and "heap s q = Some (Holds (Obj x))"
  shows "factory_call E m (Ptr (Class C)) (Some p) as s
           = Inr (fst (f x as), s\<lparr>heap := (heap s)(q \<mapsto> Holds (Obj (snd (f x as))))\<rparr>)"
  using assms
  by (simp add: factory_call_def as_object_def read_obj_def read_ptr_def split: prod.splits)

text \<open>
  C1: let \<open>h\<close> be the Handle constructed from a value \<open>v\<close> of type \<open>U\<close>, and \<open>m\<close> the method at
  position \<open>k\<close> of the contract. The call \<open>h.m(as)\<close> takes entry \<open>k\<close> of the dispatch table,
  which is the trampoline bound to \<open>m\<close> and \<open>U\<close>. When \<open>U\<close> is a class, the call runs the
  method \<open>m\<close> of that class on the object in the Handle's buffer, which \<open>U\<close>'s constructor
  made from \<open>v\<close>, and returns its result. When \<open>U\<close> is a pointer, the buffer holds the
  pointer and the call runs the method of the pointee's class on the pointee.
\<close>

theorem dispatch_invokes_own_method:
  assumes "ctor_value E K U cat v s = Inr (h, s1)"
    and "position m K = Some k"
    and "unallocated_above_brk s"
  shows "get_method K m h = Some (m_vtable h ! k)
       \<and> m_vtable h ! k = Some (erasure_fn_value m U)
       \<and> (\<not> is_pointer U \<longrightarrow>
            (\<exists>C f x0 x. U = Class C \<and> methods (class_of E C) m = Some f \<and> v = Obj x0 \<and>
               (if copies cat then \<exists>c. copy_ctor (class_of E C) = Some c \<and> c x0 = Some x
                else \<exists>g w. move_init (class_of E C) = Some g \<and> g x0 = Some (x, w)) \<and>
               (value_preserving (class_of E C) \<longrightarrow> x = x0) \<and>
               payload (heap s1) h = Some (Holds (Obj x)) \<and>
               dispatch E K m h as s1
                 = Inr (fst (f x as),
                        s1\<lparr>heap := (heap s1)(brk s \<mapsto> Holds (Obj (snd (f x as))))\<rparr>)))
       \<and> (is_pointer U \<and> v = PtrV (Some q) \<and> heap s q = Some (Holds (Obj x)) \<longrightarrow>
            (\<exists>C f. U = Ptr (Class C) \<and> methods (class_of E C) m = Some f \<and>
               payload (heap s1) h = Some (Holds (PtrV (Some q))) \<and>
               dispatch E K m h as s1
                 = Inr (fst (f x as),
                        s1\<lparr>heap := (heap s1)(q \<mapsto> Holds (Obj (snd (f x as))))\<rparr>)))"
proof -
  from ctor_value_Inr [OF assms(1)] obtain w where
    h: "h = \<lparr>m_ptr = Some (brk s), m_t = Some (get_thunk U),
             m_vtable = map (\<lambda>m. Some (erasure_fn_value m U)) K\<rparr>"
    and hp: "heap s1 = (heap s)(brk s \<mapsto> Holds w)"
    and pw: "is_pointer U \<longrightarrow> w = v"
    and hm: "list_all (has_method E U) K"
    by blast
  have k: "k < length K" "K ! k = m"
    using position_nth [OF assms(2)] by simp_all
  have mK: "has_method E U m"
    using hm position_Some_mem [OF assms(2)] by (simp add: list_all_iff)
  have gm: "get_method K m h = Some (Some (erasure_fn_value m U))"
    unfolding h by (rule get_method_ctor_value [OF assms(2)])
  have vt: "m_vtable h ! k = Some (erasure_fn_value m U)"
    using k by (simp add: h)
  have d: "dispatch E K m h as s1 = factory_call E m U (Some (brk s)) as s1"
    by (simp add: dispatch_def gm) (simp add: h)
  have pl: "payload (heap s1) h = Some (Holds w)"
    by (simp add: payload_def h hp)
  have vmode: "\<exists>C f x0 x. U = Class C \<and> methods (class_of E C) m = Some f \<and> v = Obj x0 \<and>
               (if copies cat then \<exists>c. copy_ctor (class_of E C) = Some c \<and> c x0 = Some x
                else \<exists>g w. move_init (class_of E C) = Some g \<and> g x0 = Some (x, w)) \<and>
               (value_preserving (class_of E C) \<longrightarrow> x = x0) \<and>
               payload (heap s1) h = Some (Holds (Obj x)) \<and>
               dispatch E K m h as s1
                 = Inr (fst (f x as),
                        s1\<lparr>heap := (heap s1)(brk s \<mapsto> Holds (Obj (snd (f x as))))\<rparr>)"
    if np: "\<not> is_pointer U"
  proof -
    from np obtain C where U: "U = Class C" by (cases U) simp_all
    from mK U obtain f where f: "methods (class_of E C) m = Some f"
      by (blast dest: has_method_class)
    from ctor_value_class [OF assms(1) [unfolded U]] obtain x0 x where
      v: "v = Obj x0" and hx: "heap s1 = (heap s)(brk s \<mapsto> Holds (Obj x))"
      and c: "if copies cat then \<exists>c. copy_ctor (class_of E C) = Some c \<and> c x0 = Some x
                else \<exists>g w. move_init (class_of E C) = Some g \<and> g x0 = Some (x, w)"
      by blast
    have px: "heap s1 (brk s) = Some (Holds (Obj x))" by (simp add: hx)
    have vp: "x = x0" if "value_preserving (class_of E C)"
    proof -
      have "heap s1 = (heap s)(brk s \<mapsto> Holds (Obj x0))"
        using assms(1) that unfolding U v by (rule ctor_value_preserving)
      then have "heap s1 (brk s) = Some (Holds (Obj x0))" by simp
      with px show ?thesis by simp
    qed
    have "payload (heap s1) h = Some (Holds (Obj x))"
      by (simp add: payload_def h px)
    moreover have "dispatch E K m h as s1
        = Inr (fst (f x as), s1\<lparr>heap := (heap s1)(brk s \<mapsto> Holds (Obj (snd (f x as))))\<rparr>)"
      unfolding d U by (rule factory_call_value [OF f px])
    ultimately show ?thesis using U f v c vp by blast
  qed
  have rmode: "\<exists>C f. U = Ptr (Class C) \<and> methods (class_of E C) m = Some f \<and>
               payload (heap s1) h = Some (Holds (PtrV (Some q))) \<and>
               dispatch E K m h as s1
                 = Inr (fst (f x as),
                        s1\<lparr>heap := (heap s1)(q \<mapsto> Holds (Obj (snd (f x as))))\<rparr>)"
    if r: "is_pointer U \<and> v = PtrV (Some q) \<and> heap s q = Some (Holds (Obj x))"
  proof -
    from mK r obtain C f where U: "U = Ptr (Class C)" and f: "methods (class_of E C) m = Some f"
      by (blast dest: has_method_pointer)
    from r pw have w: "w = PtrV (Some q)" by simp
    from r assms(3) have ne: "q \<noteq> brk s"
      by (auto simp: unallocated_above_brk_def)
    have pb: "heap s1 (brk s) = Some (Holds (PtrV (Some q)))" by (simp add: hp w)
    have pq: "heap s1 q = Some (Holds (Obj x))" using r ne by (simp add: hp)
    have "dispatch E K m h as s1
        = Inr (fst (f x as), s1\<lparr>heap := (heap s1)(q \<mapsto> Holds (Obj (snd (f x as))))\<rparr>)"
      unfolding d U by (rule factory_call_reference [OF f pb pq])
    with U f pl w show ?thesis by blast
  qed
  show ?thesis
  proof (intro conjI impI)
    show "get_method K m h = Some (m_vtable h ! k)" using gm vt by simp
    show "m_vtable h ! k = Some (erasure_fn_value m U)" by (rule vt)
  qed (erule vmode, erule rmode)
qed


lemma unallocated_state0: "unallocated_above_brk state0"
  by (simp add: unallocated_above_brk_def state0_def)

theorem dispatch_invokes_own_method_witness:
  "ctor_value shapes [''area''] (Class ''Square'') lvalue (Obj 4) state0 = Inr (square_handle, state1)
   \<and> ctor_value shapes [''area''] (Ptr (Class ''Square'')) lvalue (PtrV (Some 0)) state0
       = Inr (ref_handle 2, state2)
   \<and> position ''area'' [''area''] = Some 0
   \<and> unallocated_above_brk state0
   \<and> value_preserving (class_of shapes ''Square'')
   \<and> heap state0 0 = Some (Holds (Obj 4))
   \<and> dispatch shapes [''area''] ''area'' square_handle 0 state1
       = Inr (16, state1\<lparr>heap := (heap state1)(2 \<mapsto> Holds (Obj 4))\<rparr>)
   \<and> dispatch shapes [''area''] ''area'' (ref_handle 2) 0 state2
       = Inr (16, state2\<lparr>heap := (heap state2)(0 \<mapsto> Holds (Obj 4))\<rparr>)"
proof -
  have p: "position ''area'' [''area''] = Some 0" by simp
  have c: "heap state0 0 = Some (Holds (Obj 4))" by (simp add: state0_def)
  have m: "methods (class_of shapes ''Square'') ''area'' = Some (\<lambda>x a. (x * x, x))"
    by (simp add: shapes_def Square_def)
  have b: "brk state0 = 2" by (simp add: state0_def)
  from dispatch_invokes_own_method [OF ctor_value_square p unallocated_state0, where as = 0]
    value_preserving_Square m b
  have 1: "dispatch shapes [''area''] ''area'' square_handle 0 state1
       = Inr (16, state1\<lparr>heap := (heap state1)(2 \<mapsto> Holds (Obj 4))\<rparr>)"
    by auto
  from dispatch_invokes_own_method [OF ctor_value_ref p unallocated_state0, where as = 0 and q = 0 and x = 4] c m
  have 2: "dispatch shapes [''area''] ''area'' (ref_handle 2) 0 state2
       = Inr (16, state2\<lparr>heap := (heap state2)(0 \<mapsto> Holds (Obj 4))\<rparr>)"
    by auto
  show ?thesis
    using ctor_value_square ctor_value_ref p unallocated_state0 value_preserving_Square c 1 2
    by blast
qed

section \<open>Construction from another Handle (section 4.2)\<close>

lemma thunk_copy_frame:
  assumes "thunk_copy E T dst src s = Inr s'"
  shows "handles s' = handles s \<and> brk s' = brk s \<and> capacity s' = capacity s \<and>
         (\<exists>w. heap s' = (heap s)(dst \<mapsto> Holds w))"
  using assms
  by (auto simp: thunk_copy_def split: ctype.splits option.splits)

lemma thunk_copy_Throws:
  "thunk_copy E T dst src s = Inl (Throws e s') \<Longrightarrow> s' = s \<and> e = ctor_exception"
  by (auto simp: thunk_copy_def split: ctype.splits option.splits)

lemma thunk_move_frame:
  assumes "thunk_move E T dst src s = Inr s'"
  shows "handles s' = handles s \<and> brk s' = brk s \<and> capacity s' = capacity s"
  using assms
  by (auto simp: thunk_move_def split: ctype.splits option.splits)

lemma thunk_move_Throws:
  "thunk_move E T dst src s = Inl (Throws e s') \<Longrightarrow> s' = s \<and> e = ctor_exception"
  by (auto simp: thunk_move_def split: ctype.splits option.splits)

lemma deref_thunk_copy:
  "copy (deref_thunk E t) = Some f \<Longrightarrow> \<exists>T. t = thunk_addr T \<and> f = thunk_copy E T"
  by (cases t) (auto simp: thunk_storage_def split: if_splits)

lemma deref_thunk_move:
  "move (deref_thunk E t) = Some f \<Longrightarrow> \<exists>T. t = thunk_addr T \<and> f = thunk_move E T"
  by (cases t) (auto simp: thunk_storage_def split: if_splits)

lemma deref_thunk_destroy: "destroy (deref_thunk E t) = Some thunk_destroy"
  by (cases t) (simp add: thunk_storage_def)

lemma lifecycle_op_frame:
  assumes "(if copies cat then copy (deref_thunk E t) else move (deref_thunk E t)) = Some f"
    and "f dst src s = Inr s'"
  shows "handles s' = handles s \<and> brk s' = brk s \<and> capacity s' = capacity s"
  using assms
  by (auto split: if_splits dest!: deref_thunk_copy deref_thunk_move
      dest: thunk_copy_frame thunk_move_frame)

lemma lifecycle_op_Throws:
  assumes "(if copies cat then copy (deref_thunk E t) else move (deref_thunk E t)) = Some f"
    and "f dst src s = Inl (Throws e s')"
  shows "s' = s \<and> e = ctor_exception"
  using assms
  by (auto split: if_splits dest!: deref_thunk_copy deref_thunk_move
      dest: thunk_copy_Throws thunk_move_Throws)

text \<open>The two ways in which \<open>construct\<close> returns, and the two in which it throws.\<close>

lemma construct_Inr:
  assumes "construct E K KS cat i this s = Inr (h', s')"
  shows "(\<not> op_bool i \<and> h' = this \<and> s' = s) \<or>
         (\<exists>p t s1 f vt.
            m_ptr i = Some p \<and> m_t i = Some t \<and>
            new_bytes (size_bytes (deref_thunk E t)) s = Inr (brk s, s1) \<and>
            (if copies cat then copy (deref_thunk E t) else move (deref_thunk E t)) = Some f \<and>
            f (brk s) p s1 = Inr s' \<and>
            those (map (\<lambda>m. get_method KS m i) K) = Some vt \<and>
            h' = this\<lparr>m_ptr := Some (brk s), m_t := Some t, m_vtable := vt\<rparr>)"
proof (cases "op_bool i")
  case False
  with assms show ?thesis by (simp add: construct_def split: if_splits)
next
  case True
  then obtain p where p: "m_ptr i = Some p" by (auto simp: op_bool_def)
  from assms True p obtain t where t: "m_t i = Some t"
    by (cases "m_t i") (simp_all add: construct_def split: if_splits)
  from assms True p t obtain buf s1 where
    n: "new_bytes (size_bytes (deref_thunk E t)) s = Inr (buf, s1)"
    by (cases "new_bytes (size_bytes (deref_thunk E t)) s")
      (auto simp add: construct_def split: if_splits)
  then have buf: "buf = brk s" by (simp add: new_bytes_Inr)
  from assms True p t n obtain f where
    f: "(if copies cat then copy (deref_thunk E t) else move (deref_thunk E t)) = Some f"
    by (cases "if copies cat then copy (deref_thunk E t) else move (deref_thunk E t)")
      (simp_all add: construct_def split: if_splits)
  from assms True p t n f obtain s2 where s2: "f buf p s1 = Inr s2"
    by (cases "f buf p s1") (simp_all add: construct_def split: if_splits)
  from assms True p t n f s2 obtain vt where
    vt: "those (map (\<lambda>m. get_method KS m i) K) = Some vt"
    by (cases "those (map (\<lambda>m. get_method KS m i) K)")
      (simp_all add: construct_def split: if_splits)
  from assms True p t n f s2 vt
  have "h' = this\<lparr>m_ptr := Some buf, m_t := Some t, m_vtable := vt\<rparr> \<and> s' = s2"
    by (simp add: construct_def split: if_splits)
  with p t n f s2 vt buf show ?thesis by blast
qed

lemma construct_Throws:
  assumes "construct E K KS cat i this s = Inl (Throws e s')"
  shows "op_bool i \<and>
         ((e = bad_alloc \<and> s' = s) \<or>
          (e = ctor_exception \<and> heap s' = (heap s)(brk s := None) \<and> brk s' = Suc (brk s) \<and>
             capacity s' = capacity s \<and> handles s' = handles s))"
proof (cases "op_bool i")
  case False
  with assms show ?thesis by (simp add: construct_def split: if_splits)
next
  case True
  then obtain p where p: "m_ptr i = Some p" by (auto simp: op_bool_def)
  from assms True p obtain t where t: "m_t i = Some t"
    by (cases "m_t i") (simp_all add: construct_def split: if_splits)
  show ?thesis
  proof (cases "new_bytes (size_bytes (deref_thunk E t)) s")
    case (Inl a)
    with assms True p t have "a = Throws e s'"
      by (simp add: construct_def split: if_splits)
    with Inl have "e = bad_alloc \<and> s' = s"
      by (auto simp: new_bytes_def split: if_splits)
    with True show ?thesis by simp
  next
    case (Inr b)
    then obtain buf s1 where n: "new_bytes (size_bytes (deref_thunk E t)) s = Inr (buf, s1)"
      by (cases b) simp
    note nb = new_bytes_Inr [OF n]
    from assms True p t n obtain f where
      f: "(if copies cat then copy (deref_thunk E t) else move (deref_thunk E t)) = Some f"
      by (cases "if copies cat then copy (deref_thunk E t) else move (deref_thunk E t)")
        (simp_all add: construct_def split: if_splits)
    from assms True p t n f obtain e1 where e1: "f buf p s1 = Inl e1" "unwind buf e1 = Throws e s'"
      by (cases "f buf p s1")
        (auto simp add: construct_def split: if_splits option.splits)
    then obtain s'' where s'': "e1 = Throws e s''" "s' = delete_bytes (Some buf) s''"
      by (cases e1) (simp_all add: unwind_def)
    from lifecycle_op_Throws [OF f e1(1) [unfolded s''(1)]]
    have "s'' = s1" "e = ctor_exception" by simp_all
    with s'' nb True show ?thesis
      by (simp add: delete_bytes_def)
  qed
qed

section \<open>The emptiness invariant (section 3)\<close>

lemma swap_objs_eq: "swap_objs x y = (y, x)"
  by (cases x; cases y) (simp add: swap_objs_def)

lemma null_together_default: "null_together (ctor_default K)"
  by (simp add: null_together_def ctor_default_def)

lemma construct_null_together:
  assumes "construct E K KS cat i this s = Inr (h', s')" and "null_together this"
  shows "null_together h' \<and> handles s' = handles s"
  using construct_Inr [OF assms(1)]
proof
  assume "\<not> op_bool i \<and> h' = this \<and> s' = s"
  with assms(2) show ?thesis by simp
next
  assume "\<exists>p t s1 f vt.
            m_ptr i = Some p \<and> m_t i = Some t \<and>
            new_bytes (size_bytes (deref_thunk E t)) s = Inr (brk s, s1) \<and>
            (if copies cat then copy (deref_thunk E t) else move (deref_thunk E t)) = Some f \<and>
            f (brk s) p s1 = Inr s' \<and>
            those (map (\<lambda>m. get_method KS m i) K) = Some vt \<and>
            h' = this\<lparr>m_ptr := Some (brk s), m_t := Some t, m_vtable := vt\<rparr>"
  then obtain p t s1 f where
    n: "new_bytes (size_bytes (deref_thunk E t)) s = Inr (brk s, s1)"
    and f: "(if copies cat then copy (deref_thunk E t) else move (deref_thunk E t)) = Some f"
    and r: "f (brk s) p s1 = Inr s'"
    and h: "m_ptr h' = Some (brk s)" "m_t h' = Some t"
    by auto
  from lifecycle_op_frame [OF f r] new_bytes_Inr [OF n] have "handles s' = handles s" by simp
  with h show ?thesis by (simp add: null_together_def)
qed

lemma construct_Throws_handles:
  "construct E K KS cat i this s = Inl (Throws e s') \<Longrightarrow> handles s' = handles s"
  by (auto dest: construct_Throws)

lemma ctor_value_null_together:
  "ctor_value E K U cat v s = Inr (h, s') \<Longrightarrow> null_together h \<and> handles s' = handles s"
  by (auto dest!: ctor_value_Inr simp: null_together_def)

lemma placement_new_Throws:
  "placement_new E U cat v buf s = Inl (Throws e s') \<Longrightarrow> s' = s \<and> e = ctor_exception"
  by (auto simp: placement_new_def split: ctype.splits val.splits if_splits option.splits)

lemma ctor_value_Throws:
  assumes "ctor_value E K U cat v s = Inl (Throws e s')"
  shows "(e = bad_alloc \<and> s' = s) \<or>
         (e = ctor_exception \<and> heap s' = (heap s)(brk s := None) \<and> brk s' = Suc (brk s) \<and>
            capacity s' = capacity s \<and> handles s' = handles s)"
proof (cases "new_bytes (sizeof E U) s")
  case (Inl a)
  with assms have "a = Throws e s'" by (simp add: ctor_value_def split: if_splits)
  with Inl show ?thesis by (auto simp: new_bytes_def split: if_splits)
next
  case (Inr b)
  then obtain buf s1 where n: "new_bytes (sizeof E U) s = Inr (buf, s1)" by (cases b) simp
  note nb = new_bytes_Inr [OF n]
  from assms n obtain e1 where e1: "placement_new E U cat v buf s1 = Inl e1"
      "unwind buf e1 = Throws e s'"
    by (cases "placement_new E U cat v buf s1") (auto simp: ctor_value_def split: if_splits)
  then obtain s'' where s'': "e1 = Throws e s''" "s' = delete_bytes (Some buf) s''"
    by (cases e1) (simp_all add: unwind_def)
  from placement_new_Throws [OF e1(1) [unfolded s''(1)]] have "s'' = s1" "e = ctor_exception"
    by simp_all
  with s'' nb show ?thesis by (simp add: delete_bytes_def)
qed

lemma destructor_handles: "destructor E h s = Inr s' \<Longrightarrow> handles s' = handles s"
  by (auto simp: destructor_def delete_bytes_def deref_thunk_destroy thunk_destroy_def
      split: option.splits)

lemma factory_call_handles:
  "factory_call E m T p as s = Inr (r, s') \<Longrightarrow> handles s' = handles s"
  by (auto simp: factory_call_def split: option.splits prod.splits)

lemma dispatch_handles: "dispatch E K m h as s = Inr (r, s') \<Longrightarrow> handles s' = handles s"
proof -
  assume a: "dispatch E K m h as s = Inr (r, s')"
  then obtain f where "get_method K m h = Some f" and c: "call_fnptr E f (m_ptr h) as s = Inr (r, s')"
    by (auto simp: dispatch_def split: option.splits)
  from c show ?thesis
    by (cases f; cases "the f") (auto dest: factory_call_handles)
qed

lemma ctor_copy_default: "ctor_copy E K y s = construct E K K lvalue (handles s y) (ctor_default K) s"
  by (simp add: ctor_copy_def)

lemma copy_assign_Inr:
  assumes "copy_assign E K x y s = Inr s'"
  shows "\<exists>tmp s1. ctor_copy E K y s = Inr (tmp, s1) \<and>
           destructor E (handles s x) (s1\<lparr>handles := (handles s)(x := tmp)\<rparr>) = Inr s' \<and>
           handles s1 = handles s \<and> null_together tmp \<and>
           handles s' = (handles s)(x := tmp)"
proof -
  from assms obtain tmp s1 where c: "ctor_copy E K y s = Inr (tmp, s1)"
    by (cases "ctor_copy E K y s") (auto simp: copy_assign_def)
  from construct_null_together [OF c [unfolded ctor_copy_def] null_together_default]
  have nt: "null_together tmp" and hs: "handles s1 = handles s" by simp_all
  from assms c hs have d: "destructor E (handles s x) (s1\<lparr>handles := (handles s)(x := tmp)\<rparr>) = Inr s'"
    by (simp add: copy_assign_def swap_objs_eq)
  from destructor_handles [OF d] have "handles s' = (handles s)(x := tmp)" by simp
  with c d hs nt show ?thesis by blast
qed

lemma copy_assign_Throws:
  assumes "copy_assign E K x y s = Inl (Throws e s')"
  shows "ctor_copy E K y s = Inl (Throws e s')"
proof (cases "ctor_copy E K y s")
  case (Inl a)
  with assms show ?thesis by (simp add: copy_assign_def)
next
  case (Inr b)
  with assms show ?thesis
    by (cases b) (auto simp: copy_assign_def swap_objs_eq destructor_def split: option.splits)
qed

lemma move_assign_eq:
  "move_assign E K x y s =
     destructor E (((handles s)(y := ctor_default K)) x)
       (s\<lparr>handles := (handles s)(y := ctor_default K, x := handles s y)\<rparr>)"
  by (simp add: move_assign_def ctor_move_eq swap_objs_eq)

lemma swap_handles:
  "handles (swap x y s) = (handles s)(x := handles s y, y := handles s x)"
  by (auto simp: swap_def swap_objs_eq)


lemma reachable_null_together: "reachable E s \<Longrightarrow> null_together (handles s x)"
proof (induction arbitrary: x rule: reachable.induct)
  case (start s)
  then show ?case by (simp add: null_together_def)
next
  case (declare_default s x' K)
  then show ?case by (simp add: bind_def null_together_default)
next
  case (declare_value s K U cat v h s' x')
  with ctor_value_null_together [OF declare_value.hyps(2)] show ?case by (simp add: bind_def)
next
  case (declare_copy s K y h s' x')
  with construct_null_together [OF declare_copy.hyps(2) [unfolded ctor_copy_def]
      null_together_default]
  show ?case by (simp add: bind_def)
next
  case (declare_convert s K KS cat y h s' x')
  with construct_null_together [OF declare_convert.hyps(2) [unfolded ctor_convert_def]
      null_together_default]
  show ?case by (simp add: bind_def)
next
  case (declare_move s K y h s' x')
  from declare_move.hyps(2) have "h = handles s y" "handles s' = (handles s)(y := ctor_default K)"
    by (auto simp add: ctor_move_eq)
  with declare_move.IH show ?case by (simp add: bind_def null_together_default)
next
  case (assign_copy s K x' y s')
  from copy_assign_Inr [OF assign_copy.hyps(2)] assign_copy.IH show ?case by auto
next
  case (assign_move s K x' y s')
  from destructor_handles [OF assign_move.hyps(2) [unfolded move_assign_eq]] assign_move.IH
  show ?case by (simp add: null_together_default)
next
  case (swapped s x' y)
  then show ?case by (simp add: swap_handles)
next
  case (called s K m x' as r s')
  with dispatch_handles [OF called.hyps(2)] show ?case by simp
next
  case (value_throws s K U cat v e s')
  from ctor_value_Throws [OF value_throws.hyps(2)] value_throws.IH show ?case by auto
next
  case (convert_throws s K KS cat y e s')
  from construct_Throws_handles [OF convert_throws.hyps(2) [unfolded ctor_convert_def]]
    convert_throws.IH
  show ?case by simp
next
  case (assign_throws s K x' y e s')
  from construct_Throws_handles [OF copy_assign_Throws [OF assign_throws.hyps(2), unfolded ctor_copy_def]]
    assign_throws.IH
  show ?case by simp
qed

lemma construct_empty:
  "\<not> op_bool i \<Longrightarrow> list_all (\<lambda>m. position m KS \<noteq> None) K \<Longrightarrow>
     construct E K KS cat i this s = Inr (this, s)"
  by (simp add: construct_def)

lemma position_self: "list_all (\<lambda>m. position m K \<noteq> None) K"
  using position_mem by (fastforce simp: list_all_iff)

text \<open>
  C7: in every reachable state, the data pointer of every Handle is null iff its
  descriptor pointer is null. A default-constructed Handle has both null and tests false.
  Copying, converting or moving an empty Handle yields an empty Handle. Each operation
  (a construction, an assignment, \<open>swap\<close>, a call, also one that throws) is a rule of
  \<open>reachable\<close> and so preserves the invariant.
\<close>

theorem emptiness_invariant:
  "(reachable E s \<longrightarrow>
      (\<forall>x. (m_ptr (handles s x) = None \<longleftrightarrow> m_t (handles s x) = None) \<and>
           (op_bool (handles s x) \<longleftrightarrow> m_t (handles s x) \<noteq> None)))
   \<and> m_ptr (ctor_default K) = None \<and> m_t (ctor_default K) = None
   \<and> \<not> op_bool (ctor_default K)
   \<and> (\<not> op_bool (handles s y) \<longrightarrow> ctor_copy E K y s = Inr (ctor_default K, s))
   \<and> (\<not> op_bool (handles s y) \<and> list_all (\<lambda>m. position m KS \<noteq> None) K \<longrightarrow>
        ctor_convert E K KS cat y s = Inr (ctor_default K, s))
   \<and> (\<not> op_bool (handles s y) \<longrightarrow>
        \<not> op_bool (fst (ctor_move K y s)) \<and> \<not> op_bool (handles (snd (ctor_move K y s)) y))"
proof (intro conjI impI allI)
  fix x assume "reachable E s"
  then have "null_together (handles s x)" by (rule reachable_null_together)
  then show "(m_ptr (handles s x) = None) = (m_t (handles s x) = None)"
    and "op_bool (handles s x) = (m_t (handles s x) \<noteq> None)"
    by (simp_all add: null_together_def op_bool_def)
next
  show "m_ptr (ctor_default K) = None" "m_t (ctor_default K) = None" "\<not> op_bool (ctor_default K)"
    by (simp_all add: ctor_default_def op_bool_def)
next
  assume "\<not> op_bool (handles s y)"
  then show "ctor_copy E K y s = Inr (ctor_default K, s)"
    unfolding ctor_copy_def by (rule construct_empty) (rule position_self)
next
  assume "\<not> op_bool (handles s y) \<and> list_all (\<lambda>m. position m KS \<noteq> None) K"
  then show "ctor_convert E K KS cat y s = Inr (ctor_default K, s)"
    unfolding ctor_convert_def by (simp add: construct_empty)
next
  assume "\<not> op_bool (handles s y)"
  then show "\<not> op_bool (fst (ctor_move K y s))" "\<not> op_bool (handles (snd (ctor_move K y s)) y)"
    by (simp_all add: ctor_move_eq ctor_default_def op_bool_def)
qed

theorem emptiness_invariant_witness:
  "reachable shapes (bind 0 square_handle state1)
   \<and> m_ptr (handles (bind 0 square_handle state1) 0) = Some 2
   \<and> m_t (handles (bind 0 square_handle state1) 0) \<noteq> None
   \<and> op_bool (handles (bind 0 square_handle state1) 0)
   \<and> \<not> op_bool (handles (bind 0 square_handle state1) 1)
   \<and> list_all (\<lambda>m. position m [''area'', ''scale''] \<noteq> None) [''area'']
   \<and> ctor_copy shapes [''area''] 1 (bind 0 square_handle state1)
       = Inr (ctor_default [''area''], bind 0 square_handle state1)
   \<and> ctor_convert shapes [''area''] [''area'', ''scale''] lvalue 1 (bind 0 square_handle state1)
       = Inr (ctor_default [''area''], bind 0 square_handle state1)
   \<and> \<not> op_bool (fst (ctor_move [''area''] 1 (bind 0 square_handle state1)))"
proof -
  let ?s = "bind 0 square_handle state1"
  have "reachable shapes state0"
    by (rule reachable.start) (simp add: state0_def ctor_default_def)
  then have r: "reachable shapes ?s"
    using ctor_value_square by (rule reachable.declare_value)
  have p: "m_ptr (handles ?s 0) = Some 2"
    by (simp add: bind_def square_handle_def)
  have e: "\<not> op_bool (handles ?s 1)"
    by (simp add: bind_def state1_def state0_def ctor_default_def op_bool_def)
  have l: "list_all (\<lambda>m. position m [''area'', ''scale''] \<noteq> None) [''area'']" by simp
  note t = emptiness_invariant [of shapes ?s "[''area'']" 1 "[''area'', ''scale'']" lvalue]
  from t r p have "m_t (handles ?s 0) \<noteq> None" "op_bool (handles ?s 0)" by auto
  moreover from t e l have
    "ctor_copy shapes [''area''] 1 ?s = Inr (ctor_default [''area''], ?s)"
    "ctor_convert shapes [''area''] [''area'', ''scale''] lvalue 1 ?s
       = Inr (ctor_default [''area''], ?s)"
    "\<not> op_bool (fst (ctor_move [''area''] 1 ?s))"
    by blast+
  ultimately show ?thesis using r p e l by blast
qed

section \<open>Assignment (section 3, copy-and-swap)\<close>

lemma destructor_Inr:
  assumes "null_together h"
  shows "\<exists>s'. destructor E h s = Inr s' \<and> handles s' = handles s \<and> brk s' = brk s \<and>
           capacity s' = capacity s \<and>
           heap s' = (case m_ptr h of None \<Rightarrow> heap s | Some p \<Rightarrow> (heap s)(p := None))"
proof (cases "m_ptr h")
  case None
  then show ?thesis by (simp add: destructor_def delete_bytes_def)
next
  case (Some p)
  with assms obtain t where "m_t h = Some t" by (auto simp: null_together_def)
  with Some show ?thesis
    by (simp add: destructor_def delete_bytes_def deref_thunk_destroy thunk_destroy_def)
qed

lemma thunk_copy_preserving:
  assumes "\<forall>C. value_preserving (class_of E C)" and "thunk_copy E T dst src s = Inr s'"
  shows "heap s' = (heap s)(dst := heap s src) \<and> heap s src \<noteq> None \<and> heap s src \<noteq> Some Raw"
proof (cases T)
  case (Class C)
  from assms(1) have "value_preserving (class_of E C)" by simp
  with assms(2) Class show ?thesis
    by (auto simp: thunk_copy_def read_obj_def value_preserving_def
        split: option.splits cell.splits val.splits)
next
  case (Ptr T')
  with assms(2) show ?thesis
    by (auto simp: thunk_copy_def read_ptr_def split: option.splits cell.splits val.splits)
next
  case VoidPtr
  with assms(2) show ?thesis
    by (auto simp: thunk_copy_def read_ptr_def split: option.splits cell.splits val.splits)
qed

lemma position_distinct: "distinct K \<Longrightarrow> k < length K \<Longrightarrow> position (K ! k) K = Some k"
proof (induction K arbitrary: k)
  case Nil
  then show ?case by simp
next
  case (Cons n K)
  show ?case
  proof (cases k)
    case 0
    then show ?thesis by simp
  next
    case (Suc j)
    with Cons.prems have "K ! j \<noteq> n" "position (K ! j) K = Some j"
      using Cons.IH [of j] by auto
    with Suc show ?thesis by simp
  qed
qed

lemma those_map_Some: "those (map Some xs) = Some xs"
  by (induction xs) simp_all

lemma those_get_method:
  assumes "has_contract K h"
  shows "those (map (\<lambda>m. get_method K m h) K) = Some (m_vtable h)"
proof -
  from assms have d: "distinct K" and l: "length (m_vtable h) = length K"
    by (simp_all add: has_contract_def)
  have "map (\<lambda>m. get_method K m h) K = map Some (m_vtable h)"
  proof (rule nth_equalityI)
    show "length (map (\<lambda>m. get_method K m h) K) = length (map Some (m_vtable h))"
      by (simp add: l)
  next
    fix k assume "k < length (map (\<lambda>m. get_method K m h) K)"
    then have k: "k < length K" by simp
    with d l show "map (\<lambda>m. get_method K m h) K ! k = map Some (m_vtable h) ! k"
      by (simp add: get_method_def position_distinct)
  qed
  then show ?thesis by (simp add: those_map_Some)
qed

text \<open>A copy that succeeds, under value-preserving constructors.\<close>

lemma ctor_copy_nonempty:
  assumes c: "ctor_copy E K y s = Inr (tmp, s1)"
    and ne: "op_bool (handles s y)"
    and typed: "has_contract K (handles s y)"
    and vp: "\<forall>C. value_preserving (class_of E C)"
  shows "m_ptr tmp = Some (brk s) \<and> m_t tmp = m_t (handles s y) \<and>
         m_vtable tmp = m_vtable (handles s y) \<and>
         heap s1 = (heap s)(brk s := payload (heap s) (handles s y)) \<and>
         payload (heap s) (handles s y) \<noteq> None \<and>
         handles s1 = handles s \<and> brk s1 = Suc (brk s)"
proof -
  from construct_Inr [OF c [unfolded ctor_copy_def]] ne obtain p t s0 f vt where
    p: "m_ptr (handles s y) = Some p" and t: "m_t (handles s y) = Some t"
    and n: "new_bytes (size_bytes (deref_thunk E t)) s = Inr (brk s, s0)"
    and f: "copy (deref_thunk E t) = Some f"
    and r: "f (brk s) p s0 = Inr s1"
    and vt: "those (map (\<lambda>m. get_method K m (handles s y)) K) = Some vt"
    and tmp: "tmp = (ctor_default K)\<lparr>m_ptr := Some (brk s), m_t := Some t, m_vtable := vt\<rparr>"
    by auto
  from vt those_get_method [OF typed] have vt': "vt = m_vtable (handles s y)" by simp
  note nb = new_bytes_Inr [OF n]
  from f obtain T where fT: "f = thunk_copy E T" by (auto dest: deref_thunk_copy)
  from thunk_copy_preserving [OF vp r [unfolded fT]]
  have h1: "heap s1 = (heap s0)(brk s := heap s0 p)" and live: "heap s0 p \<noteq> None"
    "heap s0 p \<noteq> Some Raw"
    by simp_all
  from live nb have pb: "p \<noteq> brk s" by auto
  with nb have "heap s0 p = heap s p" by simp
  with h1 nb live have "heap s1 = (heap s)(brk s := heap s p)" "heap s p \<noteq> None" by auto
  moreover from thunk_copy_frame [OF r [unfolded fT]] nb
  have "handles s1 = handles s" "brk s1 = Suc (brk s)" by simp_all
  ultimately show ?thesis using p t tmp vt' by (simp add: payload_def)
qed


lemma thunk_copy_total:
  assumes "is_copy_constructible E T"
    and "case T of Class C \<Rightarrow> read_obj (heap s) (Some p) \<noteq> None
         | _ \<Rightarrow> read_ptr (heap s) (Some p) \<noteq> None"
  shows "(\<exists>s'. thunk_copy E T dst p s = Inr s') \<or> thunk_copy E T dst p s = Inl (Throws ctor_exception s)"
  using assms
  by (cases T) (auto simp: thunk_copy_def is_copy_constructible_def split: option.splits)

lemma read_obj_alloc:
  "p \<noteq> b \<Longrightarrow> read_obj (hp(b \<mapsto> c)) (Some p) = read_obj hp (Some p)"
  by (simp add: read_obj_def)

lemma read_ptr_alloc:
  "p \<noteq> b \<Longrightarrow> read_ptr (hp(b \<mapsto> c)) (Some p) = read_ptr hp (Some p)"
  by (simp add: read_ptr_def)

lemma read_obj_live: "read_obj hp (Some p) = Some v \<Longrightarrow> \<exists>c. hp p = Some c"
  by (auto simp: read_obj_def split: option.splits)

lemma read_ptr_live: "read_ptr hp (Some p) = Some q \<Longrightarrow> \<exists>c. hp p = Some c"
  by (auto simp: read_ptr_def split: option.splits)

lemma ctor_copy_total:
  assumes own: "owns_payload E (heap s) (handles s y)"
    and typed: "has_contract K (handles s y)"
    and fresh: "unallocated_above_brk s"
  shows "(\<exists>tmp s1. ctor_copy E K y s = Inr (tmp, s1)) \<or>
         (\<exists>e s'. ctor_copy E K y s = Inl (Throws e s'))"
proof (cases "op_bool (handles s y)")
  case False
  then have "ctor_copy E K y s = Inr (ctor_default K, s)"
    unfolding ctor_copy_def by (rule construct_empty) (rule position_self)
  then show ?thesis by simp
next
  case True
  then obtain p where p: "m_ptr (handles s y) = Some p" by (auto simp: op_bool_def)
  with own obtain T where t: "m_t (handles s y) = Some (thunk_addr T)"
    and cc: "is_copy_constructible E T"
    and rd: "case T of Class C \<Rightarrow> read_obj (heap s) (Some p) \<noteq> None
             | _ \<Rightarrow> read_ptr (heap s) (Some p) \<noteq> None"
    by (auto simp: owns_payload_def split: option.splits thunk_ptr.splits)
  from rd have "heap s p \<noteq> None"
    by (cases T) (auto dest: read_obj_live read_ptr_live)
  with fresh have pb: "p \<noteq> brk s" by (auto simp: unallocated_above_brk_def)
  have cp: "copy (deref_thunk E (thunk_addr T)) = Some (thunk_copy E T)"
    using cc by (simp add: thunk_storage_def)
  note vt = those_get_method [OF typed]
  show ?thesis
  proof (cases "new_bytes (size_bytes (deref_thunk E (thunk_addr T))) s")
    case (Inl e)
    then have "e = Throws bad_alloc s" by (auto simp: new_bytes_def split: if_splits)
    with Inl True p t show ?thesis
      by (simp add: ctor_copy_def construct_def position_self del: not_None_eq)
  next
    case (Inr b)
    then obtain buf s0 where n: "new_bytes (size_bytes (deref_thunk E (thunk_addr T))) s = Inr (buf, s0)"
      by (cases b) simp
    note nb = new_bytes_Inr [OF n]
    from rd pb nb have rd0: "case T of Class C \<Rightarrow> read_obj (heap s0) (Some p) \<noteq> None
             | _ \<Rightarrow> read_ptr (heap s0) (Some p) \<noteq> None"
      by (cases T) (simp_all add: read_obj_alloc read_ptr_alloc)
    from thunk_copy_total [OF cc rd0, of buf] show ?thesis
    proof
      assume "\<exists>s'. thunk_copy E T buf p s0 = Inr s'"
      then obtain s1 where "thunk_copy E T buf p s0 = Inr s1" by blast
      with True p t n cp vt show ?thesis
        by (simp add: ctor_copy_def construct_def position_self del: not_None_eq)
    next
      assume "thunk_copy E T buf p s0 = Inl (Throws ctor_exception s0)"
      with True p t n cp show ?thesis
        by (simp add: ctor_copy_def construct_def position_self unwind_def del: not_None_eq)
    qed
  qed
qed


lemma copy_assign_unchanged:
  assumes "copy_assign E K x y s = Inl (Throws e s')" and "unallocated_above_brk s"
  shows "handles s' = handles s \<and> heap s' = heap s"
proof -
  from assms(2) have "heap s (brk s) = None" by (simp add: unallocated_above_brk_def)
  then have "(heap s)(brk s := None) = heap s" by (simp add: fun_upd_idem)
  with construct_Throws [OF copy_assign_Throws [OF assms(1), unfolded ctor_copy_def]]
  show ?thesis by auto
qed

lemma copy_assign_succeeds:
  assumes a: "copy_assign E K x y s = Inr s'"
    and fresh: "unallocated_above_brk s"
    and below: "\<forall>p. m_ptr (handles s x) = Some p \<longrightarrow> p < brk s"
    and nt: "null_together (handles s x)"
    and typed: "has_contract K (handles s y)"
    and vp: "\<forall>C. value_preserving (class_of E C)"
  shows "handles s' = (handles s)(x := handles s' x) \<and>
         (if op_bool (handles s y)
          then m_ptr (handles s' x) = Some (brk s) \<and> m_t (handles s' x) = m_t (handles s y) \<and>
               m_vtable (handles s' x) = m_vtable (handles s y) \<and>
               payload (heap s') (handles s' x) = payload (heap s) (handles s y)
          else handles s' x = ctor_default K) \<and>
         (x \<noteq> y \<and> disjoint_buffers (handles s x) (handles s y) \<longrightarrow>
            payload (heap s') (handles s y) = payload (heap s) (handles s y))"
proof -
  from copy_assign_Inr [OF a] obtain tmp s1 where
    c: "ctor_copy E K y s = Inr (tmp, s1)"
    and d: "destructor E (handles s x) (s1\<lparr>handles := (handles s)(x := tmp)\<rparr>) = Inr s'"
    and hs: "handles s' = (handles s)(x := tmp)"
    by blast
  from destructor_Inr [OF nt, of E "s1\<lparr>handles := (handles s)(x := tmp)\<rparr>"] d
  have hp': "heap s' = (case m_ptr (handles s x) of None \<Rightarrow> heap s1
                        | Some p \<Rightarrow> (heap s1)(p := None))"
    by (auto cong: option.case_cong)
  have x': "handles s' x = tmp" by (simp add: hs)
  have frame: "handles s' = (handles s)(x := handles s' x)" by (simp add: hs)
  show ?thesis
  proof (cases "op_bool (handles s y)")
    case False
    then have "ctor_copy E K y s = Inr (ctor_default K, s)"
      unfolding ctor_copy_def by (rule construct_empty) (rule position_self)
    with c have tmp: "tmp = ctor_default K" and s1: "s1 = s" by simp_all
    from False have "payload hp (handles s y) = None" for hp :: "'a heap"
      by (simp add: payload_def op_bool_def)
    with False frame x' tmp show ?thesis by simp
  next
    case True
    from ctor_copy_nonempty [OF c True typed vp] have
      t: "m_ptr tmp = Some (brk s)" "m_t tmp = m_t (handles s y)"
        "m_vtable tmp = m_vtable (handles s y)"
      and h1: "heap s1 = (heap s)(brk s := payload (heap s) (handles s y))"
      and live: "payload (heap s) (handles s y) \<noteq> None"
      by simp_all
    from below have nb: "m_ptr (handles s x) \<noteq> Some (brk s)" by auto
    have "heap s' (brk s) = payload (heap s) (handles s y)"
      using nb by (cases "m_ptr (handles s x)") (auto simp: hp' h1)
    then have new: "payload (heap s') (handles s' x) = payload (heap s) (handles s y)"
      by (simp add: payload_def x' t)
    have other: "payload (heap s') (handles s y) = payload (heap s) (handles s y)"
      if "x \<noteq> y \<and> disjoint_buffers (handles s x) (handles s y)"
    proof -
      from True obtain py where py: "m_ptr (handles s y) = Some py" by (auto simp: op_bool_def)
      with live fresh have "py \<noteq> brk s"
        by (auto simp: payload_def unallocated_above_brk_def)
      with that py show ?thesis
        by (cases "m_ptr (handles s x)") (auto simp: payload_def hp' h1 disjoint_buffers_def)
    qed
    from True frame x' t new other show ?thesis by simp
  qed
qed

lemma move_assign_succeeds:
  assumes nt: "null_together (handles s x)"
  shows "\<exists>s'. move_assign E K x y s = Inr s' \<and>
           handles s' = (handles s)(y := ctor_default K, x := handles s y) \<and>
           (x = y \<or> disjoint_buffers (handles s x) (handles s y) \<longrightarrow>
              payload (heap s') (handles s' x) = payload (heap s) (handles s y))"
proof -
  let ?old = "((handles s)(y := ctor_default K)) x"
  let ?s2 = "s\<lparr>handles := (handles s)(y := ctor_default K, x := handles s y)\<rparr>"
  have "null_together ?old" using nt by (simp add: null_together_default)
  from destructor_Inr [OF this, of E ?s2] obtain s' where
    d: "destructor E ?old ?s2 = Inr s'"
    and hs: "handles s' = (handles s)(y := ctor_default K, x := handles s y)"
    and hp: "heap s' = (case m_ptr ?old of None \<Rightarrow> heap s | Some p \<Rightarrow> (heap s)(p := None))"
    by (auto cong: option.case_cong)
  have "payload (heap s') (handles s' x) = payload (heap s) (handles s y)"
    if "x = y \<or> disjoint_buffers (handles s x) (handles s y)"
  proof (cases "x = y")
    case True
    then show ?thesis by (simp add: hs hp ctor_default_def)
  next
    case False
    with that have "disjoint_buffers (handles s x) (handles s y)" by simp
    with False show ?thesis
      by (cases "m_ptr (handles s x)"; cases "m_ptr (handles s y)")
        (auto simp: hs hp payload_def disjoint_buffers_def)
  qed
  with d hs show ?thesis by (simp add: move_assign_eq)
qed


lemma copy_assign_total:
  assumes own: "owns_payload E (heap s) (handles s y)"
    and typed: "has_contract K (handles s y)"
    and fresh: "unallocated_above_brk s"
    and nt: "null_together (handles s x)"
  shows "(\<exists>s'. copy_assign E K x y s = Inr s') \<or> (\<exists>e s'. copy_assign E K x y s = Inl (Throws e s'))"
  using ctor_copy_total [OF own typed fresh]
proof
  assume "\<exists>tmp s1. ctor_copy E K y s = Inr (tmp, s1)"
  then obtain tmp s1 where c: "ctor_copy E K y s = Inr (tmp, s1)" by blast
  from construct_null_together [OF c [unfolded ctor_copy_def] null_together_default]
  have hs: "handles s1 = handles s" by simp
  from destructor_Inr [OF nt, of E "s1\<lparr>handles := (handles s)(x := tmp)\<rparr>"]
  obtain s' where "destructor E (handles s x) (s1\<lparr>handles := (handles s)(x := tmp)\<rparr>) = Inr s'"
    by blast
  with c hs have "copy_assign E K x y s = Inr s'"
    by (simp add: copy_assign_def swap_objs_eq)
  then show ?thesis by blast
next
  assume "\<exists>e s'. ctor_copy E K y s = Inl (Throws e s')"
  then show ?thesis by (auto simp: copy_assign_def)
qed

text \<open>
  C8: both assignment operators build a temporary and swap. Copy-assignment \<open>x = y\<close> either
  returns, and then \<open>x\<close> holds a copy of what \<open>y\<close> held (a new buffer with an equal payload,
  the same descriptor and dispatch table; empty if \<open>y\<close> was empty), every other Handle is
  as before and \<open>y\<close>'s payload is untouched; or the copy throws, and then all Handles and
  the memory are as before. For a source that owns its payload there is no third outcome.
  Move-assignment always returns: \<open>x\<close> holds what \<open>y\<close> held, and \<open>y\<close>, if it is another
  object, is empty.
\<close>

theorem assignment_copy_and_swap:
  assumes "unallocated_above_brk s"
    and "\<forall>p. m_ptr (handles s x) = Some p \<longrightarrow> p < brk s"
    and "null_together (handles s x)"
    and "has_contract K (handles s y)"
    and "\<forall>C. value_preserving (class_of E C)"
  shows "(\<forall>e s'. copy_assign E K x y s = Inl (Throws e s') \<longrightarrow>
            handles s' = handles s \<and> heap s' = heap s)
       \<and> (\<forall>s'. copy_assign E K x y s = Inr s' \<longrightarrow>
            handles s' = (handles s)(x := handles s' x) \<and>
            (if op_bool (handles s y)
             then m_ptr (handles s' x) = Some (brk s) \<and> m_t (handles s' x) = m_t (handles s y) \<and>
                  m_vtable (handles s' x) = m_vtable (handles s y) \<and>
                  payload (heap s') (handles s' x) = payload (heap s) (handles s y)
             else handles s' x = ctor_default K) \<and>
            (x \<noteq> y \<and> disjoint_buffers (handles s x) (handles s y) \<longrightarrow>
               payload (heap s') (handles s y) = payload (heap s) (handles s y)))
       \<and> (owns_payload E (heap s) (handles s y) \<longrightarrow>
            (\<exists>s'. copy_assign E K x y s = Inr s') \<or>
            (\<exists>e s'. copy_assign E K x y s = Inl (Throws e s')))
       \<and> (\<exists>s'. move_assign E K x y s = Inr s' \<and>
            handles s' = (handles s)(y := ctor_default K, x := handles s y) \<and>
            (x = y \<or> disjoint_buffers (handles s x) (handles s y) \<longrightarrow>
               payload (heap s') (handles s' x) = payload (heap s) (handles s y)))"
proof (intro conjI allI impI)
  fix e s' assume "copy_assign E K x y s = Inl (Throws e s')"
  from copy_assign_unchanged [OF this assms(1)]
  show "handles s' = handles s" and "heap s' = heap s" by simp_all
next
  fix s' assume a: "copy_assign E K x y s = Inr s'"
  note r = copy_assign_succeeds [OF a assms]
  from r show "handles s' = (handles s)(x := handles s' x)" by (rule conjunct1)
  from r show "if op_bool (handles s y)
             then m_ptr (handles s' x) = Some (brk s) \<and> m_t (handles s' x) = m_t (handles s y) \<and>
                  m_vtable (handles s' x) = m_vtable (handles s y) \<and>
                  payload (heap s') (handles s' x) = payload (heap s) (handles s y)
             else handles s' x = ctor_default K"
    by (rule conjunct2 [THEN conjunct1])
  assume "x \<noteq> y \<and> disjoint_buffers (handles s x) (handles s y)"
  with r show "payload (heap s') (handles s y) = payload (heap s) (handles s y)" by blast
next
  assume "owns_payload E (heap s) (handles s y)"
  then show "(\<exists>s'. copy_assign E K x y s = Inr s') \<or>
            (\<exists>e s'. copy_assign E K x y s = Inl (Throws e s'))"
    using assms(4,1,3) by (rule copy_assign_total)
next
  show "\<exists>s'. move_assign E K x y s = Inr s' \<and>
            handles s' = (handles s)(y := ctor_default K, x := handles s y) \<and>
            (x = y \<or> disjoint_buffers (handles s x) (handles s y) \<longrightarrow>
               payload (heap s') (handles s' x) = payload (heap s) (handles s y))"
    using assms(3) by (rule move_assign_succeeds)
qed

lemma value_preserving_shapes: "\<forall>C. value_preserving (class_of shapes C)"
  by (simp add: value_preserving_def shapes_def Square_def Circle_def Token_def)

lemma copy_assign_example:
  "\<exists>s'. copy_assign shapes [''area''] 1 0 (bind 0 square_handle state1) = Inr s'"
  by (simp add: copy_assign_def ctor_copy_def construct_def bind_def square_handle_def
      state1_def state0_def op_bool_def new_bytes_def thunk_storage_def
      is_copy_constructible_def shapes_def Square_def sizeof_def thunk_copy_def read_obj_def
      get_method_def swap_objs_def ctor_default_def destructor_def delete_bytes_def)

lemma copy_assign_bad_alloc:
  "copy_assign shapes [''area''] 1 0 (bind 0 square_handle (state1\<lparr>capacity := 0\<rparr>))
     = Inl (Throws bad_alloc (bind 0 square_handle (state1\<lparr>capacity := 0\<rparr>)))"
  by (simp add: copy_assign_def ctor_copy_def construct_def bind_def square_handle_def
      state1_def state0_def op_bool_def new_bytes_def thunk_storage_def
      is_copy_constructible_def shapes_def Square_def sizeof_def)

theorem assignment_copy_and_swap_witness:
  "unallocated_above_brk (bind 0 square_handle state1)
   \<and> null_together (handles (bind 0 square_handle state1) 1)
   \<and> has_contract [''area''] (handles (bind 0 square_handle state1) 0)
   \<and> owns_payload shapes (heap (bind 0 square_handle state1)) (handles (bind 0 square_handle state1) 0)
   \<and> (\<exists>s'. copy_assign shapes [''area''] 1 0 (bind 0 square_handle state1) = Inr s' \<and>
         m_ptr (handles s' 1) = Some 3 \<and>
         payload (heap s') (handles s' 1) = Some (Holds (Obj 4)) \<and>
         handles s' 0 = square_handle)
   \<and> copy_assign shapes [''area''] 1 0 (bind 0 square_handle (state1\<lparr>capacity := 0\<rparr>))
       = Inl (Throws bad_alloc (bind 0 square_handle (state1\<lparr>capacity := 0\<rparr>)))
   \<and> (\<exists>s'. move_assign shapes [''area''] 1 0 (bind 0 square_handle state1) = Inr s' \<and>
         handles s' 1 = square_handle \<and> \<not> op_bool (handles s' 0))"
proof -
  let ?s = "bind 0 square_handle state1"
  have f: "unallocated_above_brk ?s"
    by (simp add: unallocated_above_brk_def bind_def state1_def state0_def)
  have b: "\<forall>p. m_ptr (handles ?s 1) = Some p \<longrightarrow> p < brk ?s"
    by (simp add: bind_def state1_def state0_def ctor_default_def)
  have n: "null_together (handles ?s 1)"
    by (simp add: bind_def state1_def state0_def null_together_default)
  have c: "has_contract [''area''] (handles ?s 0)"
    by (simp add: has_contract_def bind_def square_handle_def)
  have o: "owns_payload shapes (heap ?s) (handles ?s 0)"
    by (simp add: owns_payload_def bind_def square_handle_def state1_def state0_def
        is_copy_constructible_def shapes_def Square_def read_obj_def)
  have h0: "handles ?s 0 = square_handle" and h1: "m_ptr (handles ?s 1) = None"
    and bk: "brk ?s = 3" and ob: "op_bool (handles ?s 0)"
    and pl: "payload (heap ?s) (handles ?s 0) = Some (Holds (Obj 4))"
    by (simp_all add: bind_def square_handle_def state1_def state0_def ctor_default_def
        op_bool_def payload_def)
  note t = assignment_copy_and_swap [OF f b n c value_preserving_shapes]
  from copy_assign_example obtain s' where
    s': "copy_assign shapes [''area''] 1 0 ?s = Inr s'" by blast
  with t have r: "handles s' = (handles ?s)(1 := handles s' 1)"
    "if op_bool (handles ?s 0)
     then m_ptr (handles s' 1) = Some (brk ?s) \<and> m_t (handles s' 1) = m_t (handles ?s 0) \<and>
          m_vtable (handles s' 1) = m_vtable (handles ?s 0) \<and>
          payload (heap s') (handles s' 1) = payload (heap ?s) (handles ?s 0)
     else handles s' 1 = ctor_default [''area'']"
    by blast+
  from r(1) have "handles s' 0 = handles ?s 0" by (metis fun_upd_other zero_neq_one)
  with r(2) ob bk pl h0 s' have 1: "\<exists>s'. copy_assign shapes [''area''] 1 0 ?s = Inr s' \<and>
         m_ptr (handles s' 1) = Some 3 \<and>
         payload (heap s') (handles s' 1) = Some (Holds (Obj 4)) \<and>
         handles s' 0 = square_handle"
    by auto
  from t obtain s'' where "move_assign shapes [''area''] 1 0 ?s = Inr s''"
    and "handles s'' = (handles ?s)(0 := ctor_default [''area''], 1 := handles ?s 0)"
    by blast
  with h0 have 2: "\<exists>s'. move_assign shapes [''area''] 1 0 ?s = Inr s' \<and>
         handles s' 1 = square_handle \<and> \<not> op_bool (handles s' 0)"
    by (auto simp: ctor_default_def op_bool_def)
  from f n c o 1 copy_assign_bad_alloc 2 show ?thesis by blast
qed

section \<open>Narrowing conversion (section 4.2)\<close>

lemma those_nth:
  "those xs = Some ys \<Longrightarrow> length ys = length xs \<and> (\<forall>k < length xs. xs ! k = Some (ys ! k))"
proof (induction xs arbitrary: ys)
  case Nil
  then show ?case by simp
next
  case (Cons x xs)
  then obtain y ys' where x: "x = Some y" and r: "those xs = Some ys'" and ys: "ys = y # ys'"
    by (auto split: option.splits)
  from Cons.IH [OF r] show ?case
    by (auto simp: x ys nth_Cons split: nat.splits)
qed

lemma those_Some:
  "list_all (\<lambda>x. x \<noteq> None) xs \<Longrightarrow> \<exists>ys. those xs = Some ys"
  by (induction xs) auto

lemma subseq_positions:
  assumes "subseq K KS"
  shows "list_all (\<lambda>m. position m KS \<noteq> None) K"
proof -
  have "set K \<subseteq> set KS"
  proof
    fix m assume "m \<in> set K"
    with assms obtain n where "n \<in> set KS" "m = n" by (rule list_emb_set)
    then show "m \<in> set KS" by simp
  qed
  then show ?thesis using position_mem by (fastforce simp: list_all_iff)
qed

text \<open>The table of a converted Handle holds the source's entries, looked up by name.\<close>

lemma converted_get_method:
  assumes vt: "those (map (\<lambda>m. get_method KS m i) K) = Some vt"
    and m: "m \<in> set K"
  shows "get_method K m (h\<lparr>m_vtable := vt\<rparr>) = get_method KS m i"
proof -
  from m obtain k where k: "position m K = Some k" by (blast dest: position_mem)
  from position_nth [OF k] have kl: "k < length K" and km: "K ! k = m" by simp_all
  from those_nth [OF vt] kl km have "length vt = length K" "get_method KS m i = Some (vt ! k)"
    by auto
  with k kl show ?thesis by (simp add: get_method_def)
qed

lemma construct_copies:
  assumes c: "construct E K KS cat i this s = Inr (h', s')"
    and cp: "copies cat"
    and ne: "op_bool i"
    and vp: "\<forall>C. value_preserving (class_of E C)"
  shows "\<exists>vt. those (map (\<lambda>m. get_method KS m i) K) = Some vt \<and>
              h' = this\<lparr>m_ptr := Some (brk s), m_t := m_t i, m_vtable := vt\<rparr> \<and>
              heap s' = (heap s)(brk s := payload (heap s) i) \<and>
              payload (heap s) i \<noteq> None \<and> payload (heap s) i \<noteq> Some Raw \<and>
              m_ptr i \<noteq> Some (brk s) \<and>
              handles s' = handles s \<and> brk s' = Suc (brk s)"
proof -
  from construct_Inr [OF c] ne cp obtain p t s0 f vt where
    p: "m_ptr i = Some p" and t: "m_t i = Some t"
    and n: "new_bytes (size_bytes (deref_thunk E t)) s = Inr (brk s, s0)"
    and f: "copy (deref_thunk E t) = Some f"
    and r: "f (brk s) p s0 = Inr s'"
    and vt: "those (map (\<lambda>m. get_method KS m i) K) = Some vt"
    and h': "h' = this\<lparr>m_ptr := Some (brk s), m_t := Some t, m_vtable := vt\<rparr>"
    by auto
  note nb = new_bytes_Inr [OF n]
  from f obtain T where fT: "f = thunk_copy E T" by (auto dest: deref_thunk_copy)
  from thunk_copy_preserving [OF vp r [unfolded fT]]
  have h1: "heap s' = (heap s0)(brk s := heap s0 p)" and live: "heap s0 p \<noteq> None"
    "heap s0 p \<noteq> Some Raw"
    by simp_all
  from live nb have pb: "p \<noteq> brk s" by auto
  with nb have e: "heap s0 p = heap s p" by simp
  with h1 nb have "heap s' = (heap s)(brk s := heap s p)" by auto
  moreover from thunk_copy_frame [OF r [unfolded fT]] nb
  have "handles s' = handles s" "brk s' = Suc (brk s)" by simp_all
  ultimately show ?thesis using p t h' vt live e pb by (simp add: payload_def)
qed

text \<open>
  A trampoline called on a buffer that holds a copy of the payload returns what it returns
  on the original buffer.
\<close>

lemma factory_call_copied:
  assumes hp: "heap s' = (heap s)(b := heap s p)" and fresh: "heap s b = None"
  shows "returned (factory_call E m T (Some b) as s') = returned (factory_call E m T (Some p) as s)"
proof (cases "object_class T")
  case None
  then show ?thesis by (simp add: factory_call_def)
next
  case C: (Some C)
  show ?thesis
  proof (cases "methods (class_of E C) m")
    case None
    with C show ?thesis by (simp add: factory_call_def)
  next
    case f: (Some f)
    have cell: "heap s' b = heap s p" by (simp add: hp)
    show ?thesis
    proof (cases "is_pointer T")
      case False
      then have "read_obj (heap s') (Some b) = read_obj (heap s) (Some p)"
        by (simp add: read_obj_def cell)
      with False C f show ?thesis
        by (simp add: factory_call_def as_object_def returned_def split: option.splits prod.splits)
    next
      case True
      have rp: "read_ptr (heap s') (Some b) = read_ptr (heap s) (Some p)"
        by (simp add: read_ptr_def cell)
      show ?thesis
      proof (cases "read_ptr (heap s) (Some p)")
        case None
        with True C f rp show ?thesis by (simp add: factory_call_def as_object_def)
      next
        case (Some q')
        show ?thesis
        proof (cases q')
          case None
          with Some True C f rp show ?thesis by (simp add: factory_call_def as_object_def)
        next
          case q: (Some q)
          have "read_obj (heap s') (Some q) = read_obj (heap s) (Some q)"
          proof (cases "q = b")
            case True
            from Some have "read_obj (heap s) (Some p) = None"
              by (auto simp: read_ptr_def read_obj_def split: option.splits cell.splits val.splits)
            with True fresh cell show ?thesis by (simp add: read_obj_def)
          next
            case False
            then show ?thesis by (simp add: read_obj_def hp)
          qed
          with Some q True C f rp show ?thesis
            by (simp add: factory_call_def as_object_def returned_def
                split: option.splits prod.splits)
        qed
      qed
    qed
  qed
qed

lemma call_fnptr_copied:
  assumes "heap s' = (heap s)(b := heap s p)" and "heap s b = None"
  shows "returned (call_fnptr E f (Some b) as s') = returned (call_fnptr E f (Some p) as s)"
proof (cases f)
  case None
  then show ?thesis by (simp add: returned_def)
next
  case (Some g)
  then show ?thesis by (cases g) (simp add: factory_call_copied [OF assms])
qed


lemma construct_total:
  assumes own: "owns_payload E (heap s) i"
    and static: "list_all (\<lambda>m. position m KS \<noteq> None) K"
    and len: "length (m_vtable i) = length KS"
    and fresh: "unallocated_above_brk s"
    and cp: "copies cat"
  shows "(\<exists>h' s'. construct E K KS cat i this s = Inr (h', s')) \<or>
         (\<exists>e s'. construct E K KS cat i this s = Inl (Throws e s'))"
proof (cases "op_bool i")
  case False
  with static have "construct E K KS cat i this s = Inr (this, s)" by (simp add: construct_empty)
  then show ?thesis by simp
next
  case True
  then obtain p where p: "m_ptr i = Some p" by (auto simp: op_bool_def)
  with own obtain T where t: "m_t i = Some (thunk_addr T)"
    and cc: "is_copy_constructible E T"
    and rd: "case T of Class C \<Rightarrow> read_obj (heap s) (Some p) \<noteq> None
             | _ \<Rightarrow> read_ptr (heap s) (Some p) \<noteq> None"
    by (auto simp: owns_payload_def split: option.splits thunk_ptr.splits)
  from rd have "heap s p \<noteq> None"
    by (cases T) (auto dest: read_obj_live read_ptr_live)
  with fresh have pb: "p \<noteq> brk s" by (auto simp: unallocated_above_brk_def)
  have cpy: "copy (deref_thunk E (thunk_addr T)) = Some (thunk_copy E T)"
    using cc by (simp add: thunk_storage_def)
  have "list_all (\<lambda>x. x \<noteq> None) (map (\<lambda>m. get_method KS m i) K)"
    unfolding list_all_iff
  proof
    fix x assume "x \<in> set (map (\<lambda>m. get_method KS m i) K)"
    then obtain m where m: "m \<in> set K" and x: "x = get_method KS m i" by auto
    from static m obtain k where k: "position m KS = Some k" by (auto simp: list_all_iff)
    from position_nth [OF k] len have "k < length (m_vtable i)" by simp
    with k x show "x \<noteq> None" by (simp add: get_method_def)
  qed
  then obtain vt where vt: "those (map (\<lambda>m. get_method KS m i) K) = Some vt"
    by (blast dest: those_Some)
  show ?thesis
  proof (cases "new_bytes (size_bytes (deref_thunk E (thunk_addr T))) s")
    case (Inl e)
    then have "e = Throws bad_alloc s" by (auto simp: new_bytes_def split: if_splits)
    with Inl True p t static show ?thesis
      by (simp add: construct_def del: not_None_eq)
  next
    case (Inr b)
    then obtain buf s0 where n: "new_bytes (size_bytes (deref_thunk E (thunk_addr T))) s = Inr (buf, s0)"
      by (cases b) simp
    note nb = new_bytes_Inr [OF n]
    from rd pb nb have rd0: "case T of Class C \<Rightarrow> read_obj (heap s0) (Some p) \<noteq> None
             | _ \<Rightarrow> read_ptr (heap s0) (Some p) \<noteq> None"
      by (cases T) (simp_all add: read_obj_alloc read_ptr_alloc)
    from thunk_copy_total [OF cc rd0, of buf] show ?thesis
    proof
      assume "\<exists>s'. thunk_copy E T buf p s0 = Inr s'"
      then obtain s1 where "thunk_copy E T buf p s0 = Inr s1" by blast
      with True p t n cpy vt static cp show ?thesis
        by (simp add: construct_def del: not_None_eq)
    next
      assume "thunk_copy E T buf p s0 = Inl (Throws ctor_exception s0)"
      with True p t n cpy static cp show ?thesis
        by (simp add: construct_def unwind_def del: not_None_eq)
    qed
  qed
qed

lemma converted_behaviour:
  assumes c: "ctor_convert E K KS cat y s = Inr (h', s')"
    and m: "m \<in> set K"
    and cp: "copies cat"
    and ne: "op_bool (handles s y)"
    and fresh: "unallocated_above_brk s"
    and vp: "\<forall>C. value_preserving (class_of E C)"
  shows "get_method K m h' = get_method KS m (handles s y) \<and>
         m_ptr h' = Some (brk s) \<and> m_t h' = m_t (handles s y) \<and>
         payload (heap s') h' = payload (heap s) (handles s y) \<and>
         payload (heap s') (handles s y) = payload (heap s) (handles s y) \<and>
         handles s' = handles s \<and>
         returned (dispatch E K m h' as s') = returned (dispatch E KS m (handles s y) as s)"
proof -
  let ?i = "handles s y"
  from construct_copies [OF c [unfolded ctor_convert_def] cp ne vp] obtain vt where
    vt: "those (map (\<lambda>m. get_method KS m ?i) K) = Some vt"
    and h': "h' = (ctor_default K)\<lparr>m_ptr := Some (brk s), m_t := m_t ?i, m_vtable := vt\<rparr>"
    and hp: "heap s' = (heap s)(brk s := payload (heap s) ?i)"
    and pb: "m_ptr ?i \<noteq> Some (brk s)"
    and hs: "handles s' = handles s"
    by blast
  from ne obtain p where p: "m_ptr ?i = Some p" by (auto simp: op_bool_def)
  have gm: "get_method K m h' = get_method KS m ?i"
    unfolding h' using converted_get_method [OF vt m] by simp
  have pl: "payload (heap s') h' = payload (heap s) ?i"
    by (simp add: payload_def h' hp)
  have src: "payload (heap s') ?i = payload (heap s) ?i"
    using pb p by (simp add: payload_def hp)
  from fresh have fb: "heap s (brk s) = None" by (simp add: unallocated_above_brk_def)
  from hp p have hp': "heap s' = (heap s)(brk s := heap s p)" by (simp add: payload_def)
  have "returned (dispatch E K m h' as s') = returned (dispatch E KS m ?i as s)"
  proof (cases "get_method KS m ?i")
    case None
    with gm show ?thesis by (simp add: dispatch_def)
  next
    case (Some f)
    with gm have "dispatch E K m h' as s' = call_fnptr E f (Some (brk s)) as s'"
      by (simp add: dispatch_def h')
    moreover from Some p have "dispatch E KS m ?i as s = call_fnptr E f (Some p) as s"
      by (simp add: dispatch_def)
    ultimately show ?thesis by (simp add: call_fnptr_copied [OF hp' fb])
  qed
  with gm pl src hs show ?thesis by (simp add: h')
qed

text \<open>
  C6: let \<open>K\<close> be a contract whose method names are, in the same order, among those of the
  richer contract \<open>KS\<close>. Converting a non-empty \<open>KS\<close>-Handle to a \<open>K\<close>-Handle by copy is
  accepted; if it returns, the new Handle owns a new buffer with a payload equal to the
  source's (for value-preserving constructors), has the source's descriptor, and its table
  holds for each method name the source's entry of that name, so a call of a shared method
  on it returns what the call on the source returns. For a source that owns its payload,
  the conversion returns or throws.
\<close>

theorem narrowing_preserves_behaviour:
  assumes "subseq K KS" and "m \<in> set K" and "copies cat" and "op_bool (handles s y)"
    and "unallocated_above_brk s" and "\<forall>C. value_preserving (class_of E C)"
  shows "list_all (\<lambda>m. position m KS \<noteq> None) K
       \<and> (\<forall>h' s'. ctor_convert E K KS cat y s = Inr (h', s') \<longrightarrow>
            get_method K m h' = get_method KS m (handles s y) \<and>
            m_ptr h' = Some (brk s) \<and> m_t h' = m_t (handles s y) \<and>
            payload (heap s') h' = payload (heap s) (handles s y) \<and>
            payload (heap s') (handles s y) = payload (heap s) (handles s y) \<and>
            handles s' = handles s \<and>
            returned (dispatch E K m h' as s') = returned (dispatch E KS m (handles s y) as s))
       \<and> (owns_payload E (heap s) (handles s y) \<and> length (m_vtable (handles s y)) = length KS \<longrightarrow>
            (\<exists>h' s'. ctor_convert E K KS cat y s = Inr (h', s')) \<or>
            (\<exists>e s'. ctor_convert E K KS cat y s = Inl (Throws e s')))"
proof (intro conjI allI impI)
  show static: "list_all (\<lambda>m. position m KS \<noteq> None) K"
    using assms(1) by (rule subseq_positions)
  assume "owns_payload E (heap s) (handles s y) \<and> length (m_vtable (handles s y)) = length KS"
  then show "(\<exists>h' s'. ctor_convert E K KS cat y s = Inr (h', s')) \<or>
            (\<exists>e s'. ctor_convert E K KS cat y s = Inl (Throws e s'))"
    unfolding ctor_convert_def using static assms(5,3) by (simp add: construct_total)
next
  fix h' s' assume "ctor_convert E K KS cat y s = Inr (h', s')"
  note r = converted_behaviour [OF this assms(2,3,4,5,6)]
  from r show "get_method K m h' = get_method KS m (handles s y)" by simp
  from r show "m_ptr h' = Some (brk s)" by simp
  from r show "m_t h' = m_t (handles s y)" by simp
  from r show "payload (heap s') h' = payload (heap s) (handles s y)" by simp
  from r show "payload (heap s') (handles s y) = payload (heap s) (handles s y)" by simp
  from r show "handles s' = handles s" by simp
  from r show "returned (dispatch E K m h' as s') = returned (dispatch E KS m (handles s y) as s)"
    by (rule conjunct2 [THEN conjunct2, THEN conjunct2, THEN conjunct2, THEN conjunct2,
          THEN conjunct2])
qed


lemma convert_example:
  "\<exists>s'. ctor_convert shapes [''scale''] [''area'', ''scale''] lvalue 0 (bind 0 square_handle2 state1)
     = Inr (\<lparr>m_ptr = Some 3, m_t = Some (thunk_addr (Class ''Square'')),
             m_vtable = [Some (erasure_fn_value ''scale'' (Class ''Square''))]\<rparr>, s')"
  by (simp add: ctor_convert_def construct_def bind_def square_handle2_def
      state1_def state0_def op_bool_def new_bytes_def thunk_storage_def
      is_copy_constructible_def shapes_def Square_def sizeof_def thunk_copy_def read_obj_def
      get_method_def ctor_default_def)

theorem narrowing_preserves_behaviour_witness:
  "subseq [''scale''] [''area'', ''scale'']
   \<and> ''scale'' \<in> set [''scale'']
   \<and> copies lvalue
   \<and> op_bool (handles (bind 0 square_handle2 state1) 0)
   \<and> unallocated_above_brk (bind 0 square_handle2 state1)
   \<and> (\<exists>h' s'. ctor_convert shapes [''scale''] [''area'', ''scale''] lvalue 0
                  (bind 0 square_handle2 state1) = Inr (h', s') \<and>
         m_vtable h' = [Some (erasure_fn_value ''scale'' (Class ''Square''))] \<and>
         m_ptr h' = Some 3 \<and>
         payload (heap s') h' = Some (Holds (Obj 4)) \<and>
         returned (dispatch shapes [''scale''] ''scale'' h' 3 s') = Some 12)
   \<and> returned (dispatch shapes [''area'', ''scale''] ''scale''
        (handles (bind 0 square_handle2 state1) 0) 3 (bind 0 square_handle2 state1)) = Some 12"
proof -
  let ?s = "bind 0 square_handle2 state1"
  have sq: "subseq [''scale''] [''area'', ''scale'']" by simp
  have mem: "''scale'' \<in> set [''scale'']" by simp
  have ne: "op_bool (handles ?s 0)"
    by (simp add: bind_def square_handle2_def op_bool_def)
  have f: "unallocated_above_brk ?s"
    by (simp add: unallocated_above_brk_def bind_def state1_def state0_def)
  have d: "returned (dispatch shapes [''area'', ''scale''] ''scale'' (handles ?s 0) 3 ?s) = Some 12"
    by (simp add: returned_def dispatch_def get_method_def bind_def square_handle2_def
        factory_call_def shapes_def Square_def as_object_def read_obj_def state1_def)
  have pl: "payload (heap ?s) (handles ?s 0) = Some (Holds (Obj 4))"
    by (simp add: payload_def bind_def square_handle2_def state1_def)
  note t = narrowing_preserves_behaviour [OF sq mem _ ne f value_preserving_shapes,
      where cat = lvalue and as = 3, simplified]
  from convert_example obtain h' s' where
    c: "ctor_convert shapes [''scale''] [''area'', ''scale''] lvalue 0 ?s = Inr (h', s')"
    and v: "m_vtable h' = [Some (erasure_fn_value ''scale'' (Class ''Square''))]"
    and p: "m_ptr h' = Some 3"
    by force
  from t c have "payload (heap s') h' = payload (heap ?s) (handles ?s 0)"
    "returned (dispatch shapes [''scale''] ''scale'' h' 3 s')
       = returned (dispatch shapes [''area'', ''scale''] ''scale'' (handles ?s 0) 3 ?s)"
    by blast+
  with d pl have "payload (heap s') h' = Some (Holds (Obj 4))"
    "returned (dispatch shapes [''scale''] ''scale'' h' 3 s') = Some 12"
    by simp_all
  with c v p have "\<exists>h' s'. ctor_convert shapes [''scale''] [''area'', ''scale''] lvalue 0 ?s
         = Inr (h', s') \<and>
         m_vtable h' = [Some (erasure_fn_value ''scale'' (Class ''Square''))] \<and>
         m_ptr h' = Some 3 \<and>
         payload (heap s') h' = Some (Holds (Obj 4)) \<and>
         returned (dispatch shapes [''scale''] ''scale'' h' 3 s') = Some 12"
    by blast
  with sq mem ne f d show ?thesis by simp
qed

end
